theory Spec2Isabelle
  imports Complex_Main "HOL-Library.Sublist" "HOL-Library.Multiset" "HOL-Library.AList"
    "HOL-Library.Char_ord" "HOL-Library.List_Lexorder"
begin

section \<open>Python values\<close>

text \<open>
  The embedding follows \<^verbatim>\<open>app.py\<close>. Exceptions are values of type \<open>error\<close>; a function
  that may raise returns \<open>error + 'a\<close> with \<open>Inl\<close> for the exception. An
  \<^verbatim>\<open>HTTPException\<close> carries its status code and detail string.
\<close>

datatype error =
    HTTPException nat string
  | ValueError
  | OverflowError
  | ZeroDivisionError
  | FileNotFoundError
  | FileExistsError
  | NotADirectoryError
  | IsADirectoryError
  | SameFileError
  | ShutilError
  | UnidentifiedImageError
  | UnicodeDecodeError

definition bindE :: "error + 'a \<Rightarrow> ('a \<Rightarrow> error + 'b) \<Rightarrow> error + 'b" where
  "bindE m f = (case m of Inl e \<Rightarrow> Inl e | Inr x \<Rightarrow> f x)"

text \<open>
  A Python \<^verbatim>\<open>float\<close> is a finite value, an infinity or a NaN. Finite values are
  rationals. A result whose magnitude is at least \<open>2 ^ 1024 - 2 ^ 970\<close>, the number
  \<open>double_limit\<close> written out below, rounds beyond the largest double and is an
  infinity; below that bound arithmetic is exact: the rounding to 53 bits, underflow
  and the sign of zero are not part of the model. A Python
  \<^verbatim>\<open>int\<close> stored in a list of floats is the finite value of that integer.
\<close>

datatype pyfloat = Fin rat | PInf | NInf | NaN

definition inf_of_sign :: "bool \<Rightarrow> pyfloat" where
  "inf_of_sign positive = (if positive then PInf else NInf)"

definition double_limit :: rat where
  "double_limit =
     179769313486231580793728971405303415079934132710037826936173778980444968292764750946649017977587207096330286416692887910946555547851940402630657488671505820681908902000708383676273854845817711531764475730270069855571366959622842914819860834936475292719074168444365510704342711559699508093042880177904174497792"

definition float_overflows :: "rat \<Rightarrow> bool" where
  "float_overflows r = (double_limit \<le> \<bar>r\<bar>)"

definition to_float :: "rat \<Rightarrow> pyfloat" where
  "to_float r = (if float_overflows r then inf_of_sign (0 < r) else Fin r)"

text \<open>
  The conversion of an \<^verbatim>\<open>int\<close> operand of a float operation raises
  \<^verbatim>\<open>OverflowError\<close> when the integer is too large for a double.
\<close>

definition float_of_int :: "int \<Rightarrow> error + rat" where
  "float_of_int n = (if float_overflows (of_int n) then Inl OverflowError else Inr (of_int n))"

fun fneg :: "pyfloat \<Rightarrow> pyfloat" where
  "fneg (Fin a) = Fin (- a)"
| "fneg PInf = NInf"
| "fneg NInf = PInf"
| "fneg NaN = NaN"

fun fadd :: "pyfloat \<Rightarrow> pyfloat \<Rightarrow> pyfloat" where
  "fadd NaN _ = NaN"
| "fadd _ NaN = NaN"
| "fadd (Fin a) (Fin b) = to_float (a + b)"
| "fadd PInf NInf = NaN"
| "fadd NInf PInf = NaN"
| "fadd PInf _ = PInf"
| "fadd NInf _ = NInf"
| "fadd (Fin a) PInf = PInf"
| "fadd (Fin a) NInf = NInf"

definition fsub :: "pyfloat \<Rightarrow> pyfloat \<Rightarrow> pyfloat" where
  "fsub a b = fadd a (fneg b)"

fun fmul :: "pyfloat \<Rightarrow> pyfloat \<Rightarrow> pyfloat" where
  "fmul NaN _ = NaN"
| "fmul _ NaN = NaN"
| "fmul (Fin a) (Fin b) = to_float (a * b)"
| "fmul (Fin a) PInf = (if a = 0 then NaN else inf_of_sign (0 < a))"
| "fmul (Fin a) NInf = (if a = 0 then NaN else inf_of_sign (a < 0))"
| "fmul PInf (Fin b) = (if b = 0 then NaN else inf_of_sign (0 < b))"
| "fmul NInf (Fin b) = (if b = 0 then NaN else inf_of_sign (b < 0))"
| "fmul PInf PInf = PInf"
| "fmul PInf NInf = NInf"
| "fmul NInf PInf = NInf"
| "fmul NInf NInf = PInf"

text \<open>
  Division by a non-zero finite value; \<open>truediv\<close>, the division of a float by an
  \<^verbatim>\<open>int\<close>, converts the integer and adds Python's check for zero, and \<open>mul_int\<close> is
  the product of a float and an \<^verbatim>\<open>int\<close>.
\<close>

fun fdiv :: "pyfloat \<Rightarrow> rat \<Rightarrow> pyfloat" where
  "fdiv (Fin a) b = to_float (a / b)"
| "fdiv PInf b = inf_of_sign (0 < b)"
| "fdiv NInf b = inf_of_sign (b < 0)"
| "fdiv NaN b = NaN"

definition truediv :: "pyfloat \<Rightarrow> int \<Rightarrow> error + pyfloat" where
  "truediv a n =
     bindE (float_of_int n) (\<lambda>d. if d = 0 then Inl ZeroDivisionError else Inr (fdiv a d))"

definition mul_int :: "pyfloat \<Rightarrow> int \<Rightarrow> error + pyfloat" where
  "mul_int a n = bindE (float_of_int n) (\<lambda>d. Inr (fmul a (Fin d)))"

definition trunc :: "rat \<Rightarrow> int" where
  "trunc r = (if 0 \<le> r then \<lfloor>r\<rfloor> else \<lceil>r\<rceil>)"

fun py_int :: "pyfloat \<Rightarrow> error + int" where
  "py_int (Fin r) = Inr (trunc r)"
| "py_int PInf = Inl OverflowError"
| "py_int NInf = Inl OverflowError"
| "py_int NaN = Inl ValueError"

section \<open>Strings\<close>

text \<open>
  A string is a list of bytes. Text outside ASCII stays the bytes of its UTF-8 encoding,
  and such a byte is an ordinary character that is neither white space nor a digit nor
  a letter with a lower case.
\<close>

definition is_space :: "char \<Rightarrow> bool" where
  "is_space c = (c \<in> {CHR 0x20, CHR 0x09, CHR 0x0A, CHR 0x0B, CHR 0x0C, CHR 0x0D,
                        CHR 0x1C, CHR 0x1D, CHR 0x1E, CHR 0x1F})"

definition py_strip :: "string \<Rightarrow> string" where
  "py_strip s = rev (dropWhile is_space (rev (dropWhile is_space s)))"

definition py_rstrip_slash :: "string \<Rightarrow> string" where
  "py_rstrip_slash s = rev (dropWhile (\<lambda>c. c = CHR ''/'') (rev s))"

text \<open>\<^verbatim>\<open>str.split()\<close> without arguments: the maximal runs of characters that are not white space.\<close>

function py_split :: "string \<Rightarrow> string list" where
  "py_split [] = []"
| "py_split (c # cs) =
     (if is_space c then py_split cs
      else takeWhile (\<lambda>x. \<not> is_space x) (c # cs) # py_split (dropWhile (\<lambda>x. \<not> is_space x) cs))"
  by pat_completeness auto
termination
  by (relation "measure length") (auto simp: less_Suc_eq_le length_dropWhile_le)

definition py_lower_char :: "char \<Rightarrow> char" where
  "py_lower_char c =
     (if CHR ''A'' \<le> c \<and> c \<le> CHR ''Z'' then char_of (of_char c + (32::nat)) else c)"

definition py_lower :: "string \<Rightarrow> string" where
  "py_lower s = map py_lower_char s"

definition endswith :: "string \<Rightarrow> string \<Rightarrow> bool" where
  "endswith s suf = suffix suf s"

text \<open>
  Reading a text file line by line (\<^verbatim>\<open>for line in f\<close>): the default universal newlines
  mode turns \<^verbatim>\<open>\r\n\<close> and \<^verbatim>\<open>\r\<close> into \<^verbatim>\<open>\n\<close>, and every line keeps its terminator.
\<close>

fun universal_newlines :: "string \<Rightarrow> string" where
  "universal_newlines [] = []"
| "universal_newlines [c] = (if c = CHR 0x0D then [CHR 0x0A] else [c])"
| "universal_newlines (c # d # cs) =
     (if c = CHR 0x0D \<and> d = CHR 0x0A then CHR 0x0A # universal_newlines cs
      else if c = CHR 0x0D then CHR 0x0A # universal_newlines (d # cs)
      else c # universal_newlines (d # cs))"

function split_lines :: "string \<Rightarrow> string list" where
  "split_lines [] = []"
| "split_lines (c # cs) =
     (case dropWhile (\<lambda>x. x \<noteq> CHR 0x0A) (c # cs) of
        [] \<Rightarrow> [c # cs]
      | _ # rest \<Rightarrow> (takeWhile (\<lambda>x. x \<noteq> CHR 0x0A) (c # cs) @ [CHR 0x0A]) # split_lines rest)"
  by pat_completeness auto
termination
proof (relation "measure length")
  fix c :: char and cs x21 x22
  assume "dropWhile (\<lambda>x. x \<noteq> CHR 0x0A) (c # cs) = x21 # x22"
  then have "length (x21 # x22) \<le> length (c # cs)"
    by (metis length_dropWhile_le)
  then show "(x22, c # cs) \<in> measure length" by simp
qed simp

definition file_lines :: "string \<Rightarrow> string list" where
  "file_lines content = split_lines (universal_newlines content)"

text \<open>
  A file opened with \<^verbatim>\<open>encoding="utf-8"\<close> is decoded strictly: a byte sequence that is
  not well-formed UTF-8 (a stray continuation byte, a truncated or overlong sequence, a
  surrogate, a code point above \<^verbatim>\<open>U+10FFFF\<close>) raises \<^verbatim>\<open>UnicodeDecodeError\<close>.
\<close>

definition byte_in :: "nat \<Rightarrow> nat \<Rightarrow> char \<Rightarrow> bool" where
  "byte_in lo hi b = (lo \<le> of_char b \<and> (of_char b :: nat) \<le> hi)"

fun utf8_valid :: "string \<Rightarrow> bool" where
  "utf8_valid [] = True"
| "utf8_valid (b # bs) =
     (if byte_in 0x00 0x7F b then utf8_valid bs
      else if byte_in 0xC2 0xDF b then
        (case bs of
           b1 # r \<Rightarrow> byte_in 0x80 0xBF b1 \<and> utf8_valid r
         | _ \<Rightarrow> False)
      else if byte_in 0xE0 0xEF b then
        (case bs of
           b1 # b2 # r \<Rightarrow>
             byte_in (if b = CHR 0xE0 then 0xA0 else 0x80) (if b = CHR 0xED then 0x9F else 0xBF) b1
             \<and> byte_in 0x80 0xBF b2 \<and> utf8_valid r
         | _ \<Rightarrow> False)
      else if byte_in 0xF0 0xF4 b then
        (case bs of
           b1 # b2 # b3 # r \<Rightarrow>
             byte_in (if b = CHR 0xF0 then 0x90 else 0x80) (if b = CHR 0xF4 then 0x8F else 0xBF) b1
             \<and> byte_in 0x80 0xBF b2 \<and> byte_in 0x80 0xBF b3 \<and> utf8_valid r
         | _ \<Rightarrow> False)
      else False)"

subsection \<open>Parsing a float\<close>

text \<open>
  \<^verbatim>\<open>float(s)\<close> on a string follows the grammar of the language reference: an optional
  sign, then \<^verbatim>\<open>inf\<close>, \<^verbatim>\<open>infinity\<close> or \<^verbatim>\<open>nan\<close> in any case, or a decimal number with an
  optional exponent, whose digit parts may group digits with single underscores. A
  number too large for a double is an infinity.
\<close>

definition is_digit :: "char \<Rightarrow> bool" where
  "is_digit c = (c \<in> set ''0123456789'')"

definition digit_val :: "char \<Rightarrow> nat" where
  "digit_val c = of_char c - 48"

fun digitpart :: "string \<Rightarrow> nat list option" where
  "digitpart [] = None"
| "digitpart [c] = (if is_digit c then Some [digit_val c] else None)"
| "digitpart (c # d # cs) =
     (if \<not> is_digit c then None
      else if d = CHR ''_'' then map_option ((#) (digit_val c)) (digitpart cs)
      else map_option ((#) (digit_val c)) (digitpart (d # cs)))"

definition nat_of_digits :: "nat list \<Rightarrow> nat" where
  "nat_of_digits ds = foldl (\<lambda>a d. 10 * a + d) 0 ds"

definition frac_of_digits :: "nat list \<Rightarrow> rat" where
  "frac_of_digits ds = of_nat (nat_of_digits ds) / 10 ^ length ds"

definition parse_mantissa :: "string \<Rightarrow> rat option" where
  "parse_mantissa m =
     (let ip = takeWhile (\<lambda>c. c \<noteq> CHR ''.'') m in
      case dropWhile (\<lambda>c. c \<noteq> CHR ''.'') m of
        [] \<Rightarrow> map_option (\<lambda>ds. of_nat (nat_of_digits ds)) (digitpart ip)
      | _ # fp \<Rightarrow>
          if ip = [] then map_option frac_of_digits (digitpart fp)
          else (case digitpart ip of
                  None \<Rightarrow> None
                | Some ds \<Rightarrow>
                    if fp = [] then Some (of_nat (nat_of_digits ds))
                    else map_option (\<lambda>fs. of_nat (nat_of_digits ds) + frac_of_digits fs)
                           (digitpart fp)))"

definition parse_exponent :: "string \<Rightarrow> int option" where
  "parse_exponent e =
     (case e of
        [] \<Rightarrow> None
      | c # cs \<Rightarrow>
          if c = CHR ''-'' then map_option (\<lambda>ds. - int (nat_of_digits ds)) (digitpart cs)
          else if c = CHR ''+'' then map_option (\<lambda>ds. int (nat_of_digits ds)) (digitpart cs)
          else map_option (\<lambda>ds. int (nat_of_digits ds)) (digitpart e))"

definition is_exp_char :: "char \<Rightarrow> bool" where
  "is_exp_char c = (c = CHR ''e'' \<or> c = CHR ''E'')"

definition parse_number :: "string \<Rightarrow> rat option" where
  "parse_number s =
     (case parse_mantissa (takeWhile (\<lambda>c. \<not> is_exp_char c) s) of
        None \<Rightarrow> None
      | Some m \<Rightarrow>
          (case dropWhile (\<lambda>c. \<not> is_exp_char c) s of
             [] \<Rightarrow> Some m
           | _ # e \<Rightarrow> map_option (\<lambda>k. m * power_int 10 k) (parse_exponent e)))"

definition parse_abs_float :: "string \<Rightarrow> pyfloat option" where
  "parse_abs_float s =
     (if py_lower s = ''inf'' \<or> py_lower s = ''infinity'' then Some PInf
      else if py_lower s = ''nan'' then Some NaN
      else map_option to_float (parse_number s))"

definition py_float :: "string \<Rightarrow> error + pyfloat" where
  "py_float s =
     (let t = py_strip s;
          r = (case t of
                 [] \<Rightarrow> None
               | c # cs \<Rightarrow>
                   if c = CHR ''-'' then map_option fneg (parse_abs_float cs)
                   else if c = CHR ''+'' then parse_abs_float cs
                   else parse_abs_float t)
      in case r of None \<Rightarrow> Inl ValueError | Some v \<Rightarrow> Inr v)"

subsection \<open>Formatting numbers\<close>

definition digit_char :: "nat \<Rightarrow> char" where
  "digit_char d = char_of (48 + d)"

fun show_nat :: "nat \<Rightarrow> string" where
  "show_nat n = (if n < 10 then [digit_char n] else show_nat (n div 10) @ [digit_char (n mod 10)])"

declare show_nat.simps [simp del]

definition show_int :: "int \<Rightarrow> string" where
  "show_int i = (if i < 0 then CHR ''-'' # show_nat (nat (- i)) else show_nat (nat i))"

text \<open>
  The format \<^verbatim>\<open>.6f\<close> prints the decimal with six fraction digits that is nearest to the
  value, a tie going to the even last digit; a negative value keeps its sign when it
  rounds to zero.
\<close>

definition round_half_even :: "rat \<Rightarrow> int" where
  "round_half_even x =
     (let f = \<lfloor>x\<rfloor>; d = x - of_int f
      in if d < 1 / 2 then f else if 1 / 2 < d then f + 1 else if even f then f else f + 1)"

definition pad6 :: "nat \<Rightarrow> string" where
  "pad6 n = replicate (6 - length (show_nat n)) (CHR ''0'') @ show_nat n"

definition format_6f_rat :: "rat \<Rightarrow> string" where
  "format_6f_rat x =
     (let q = nat (round_half_even (\<bar>x\<bar> * 1000000))
      in (if x < 0 then ''-'' else []) @ show_nat (q div 1000000) @ ''.'' @ pad6 (q mod 1000000))"

fun format_6f :: "pyfloat \<Rightarrow> string" where
  "format_6f (Fin x) = format_6f_rat x"
| "format_6f PInf = ''inf''"
| "format_6f NInf = ''-inf''"
| "format_6f NaN = ''nan''"

section \<open>The file system\<close>

text \<open>
  A file system is a finite table from path strings to nodes. Path strings are taken
  as the operating system receives them and two different strings name two different
  nodes: the resolution of \<^verbatim>\<open>.\<close>, \<^verbatim>\<open>..\<close>, links and relative paths is not modelled, and
  neither are permissions. Root resolution is the one place where the source builds a
  path with a doubled slash (a candidate \<^verbatim>\<open>/\<close> followed by \<^verbatim>\<open>/images/...\<close>) and where
  it takes the absolute path of an empty string; there the model follows the
  operating system, which reads repeated slashes as one, and takes the working
  directory as a parameter.
\<close>

datatype node = File string | Dir

type_synonym filesystem = "(string \<times> node) list"

definition isfile :: "filesystem \<Rightarrow> string \<Rightarrow> bool" where
  "isfile fs p = (case map_of fs p of Some (File _) \<Rightarrow> True | _ \<Rightarrow> False)"

definition isdir :: "filesystem \<Rightarrow> string \<Rightarrow> bool" where
  "isdir fs p = (map_of fs p = Some Dir)"

definition path_exists :: "filesystem \<Rightarrow> string \<Rightarrow> bool" where
  "path_exists fs p = (map_of fs p \<noteq> None)"

definition getsize :: "filesystem \<Rightarrow> string \<Rightarrow> nat" where
  "getsize fs p = (case map_of fs p of Some (File content) \<Rightarrow> length content | _ \<Rightarrow> 0)"

subsection \<open>Paths\<close>

text \<open>
  \<^verbatim>\<open>norm\<close> of the source: \<^verbatim>\<open>os.path.abspath\<close> is the identity on the absolute, normalised
  paths of the model; the backslashes become slashes. The functions of \<^verbatim>\<open>os.path\<close> are
  those of \<^verbatim>\<open>posixpath\<close>.
\<close>

definition norm_path :: "string \<Rightarrow> string" where
  "norm_path path = map (\<lambda>c. if c = CHR 0x5C then CHR ''/'' else c) path"

text \<open>
  \<^verbatim>\<open>norm\<close> of a path that can be the empty string: \<^verbatim>\<open>os.path.abspath('')\<close> is the
  working directory \<open>cwd\<close>.
\<close>

definition norm_from :: "string \<Rightarrow> string \<Rightarrow> string" where
  "norm_from cwd path = norm_path (if path = [] then cwd else path)"

text \<open>The path that the operating system resolves: repeated slashes count as one.\<close>

fun squeeze_slashes :: "string \<Rightarrow> string" where
  "squeeze_slashes (c # d # cs) =
     (if c = CHR ''/'' \<and> d = CHR ''/'' then squeeze_slashes (d # cs)
      else c # squeeze_slashes (d # cs))"
| "squeeze_slashes cs = cs"

definition path_head :: "string \<Rightarrow> string" where
  "path_head p = rev (dropWhile (\<lambda>c. c \<noteq> CHR ''/'') (rev p))"

definition basename :: "string \<Rightarrow> string" where
  "basename p = rev (takeWhile (\<lambda>c. c \<noteq> CHR ''/'') (rev p))"

definition dirname :: "string \<Rightarrow> string" where
  "dirname p =
     (let head = path_head p
      in if head \<noteq> [] \<and> head \<noteq> replicate (length head) (CHR ''/'') then py_rstrip_slash head
         else head)"

definition splitext :: "string \<Rightarrow> string \<times> string" where
  "splitext p =
     (let b = basename p;
          stem = rev (tl (dropWhile (\<lambda>c. c \<noteq> CHR ''.'') (rev b)));
          ext = CHR ''.'' # rev (takeWhile (\<lambda>c. c \<noteq> CHR ''.'') (rev b))
      in if CHR ''.'' \<in> set b \<and> stem \<noteq> replicate (length stem) (CHR ''.'')
         then (path_head p @ stem, ext)
         else (p, []))"

definition path_join :: "string \<Rightarrow> string \<Rightarrow> string" where
  "path_join a b =
     (if b \<noteq> [] \<and> hd b = CHR ''/'' then b
      else if a = [] \<or> last a = CHR ''/'' then a @ b
      else a @ ''/'' @ b)"

subsection \<open>The operations of \<^verbatim>\<open>os\<close> and \<^verbatim>\<open>shutil\<close>\<close>

text \<open>
  A raised exception discards the file system: what a failed operation leaves behind
  is not modelled.
\<close>

definition parent_error :: "filesystem \<Rightarrow> string \<Rightarrow> error option" where
  "parent_error fs p =
     (if dirname p = [] then None
      else (case map_of fs (dirname p) of
              None \<Rightarrow> Some FileNotFoundError
            | Some (File _) \<Rightarrow> Some NotADirectoryError
            | Some Dir \<Rightarrow> None))"

definition mkdir :: "filesystem \<Rightarrow> string \<Rightarrow> error + filesystem" where
  "mkdir fs name =
     (if name = [] then Inl FileNotFoundError
      else if path_exists fs name then Inl FileExistsError
      else (case parent_error fs name of
              Some e \<Rightarrow> Inl e
            | None \<Rightarrow> Inr (fs @ [(name, Dir)])))"

definition mkdir_exist_ok :: "filesystem \<Rightarrow> string \<Rightarrow> error + filesystem" where
  "mkdir_exist_ok fs name =
     (case mkdir fs name of
        Inl e \<Rightarrow> if isdir fs name then Inr fs else Inl e
      | Inr fs' \<Rightarrow> Inr fs')"

definition makedirs_head :: "string \<Rightarrow> string" where
  "makedirs_head name = (if basename name = [] then dirname (dirname name) else dirname name)"

definition makedirs_tail :: "string \<Rightarrow> string" where
  "makedirs_tail name = (if basename name = [] then basename (dirname name) else basename name)"

lemma length_path_head: "length (path_head p) + length (basename p) = length p"
proof -
  have "length (rev p) = length (takeWhile (\<lambda>c. c \<noteq> CHR ''/'') (rev p))
          + length (dropWhile (\<lambda>c. c \<noteq> CHR ''/'') (rev p))"
    by (metis length_append takeWhile_dropWhile_id)
  then show ?thesis by (simp add: path_head_def basename_def)
qed

lemma length_dirname_le: "length (dirname p) \<le> length (path_head p)"
proof -
  have "length (dropWhile (\<lambda>c. c = CHR ''/'') (rev (path_head p))) \<le> length (rev (path_head p))"
    by (rule length_dropWhile_le)
  then show ?thesis by (simp add: dirname_def py_rstrip_slash_def Let_def)
qed

lemma makedirs_head_shorter:
  assumes "makedirs_tail name \<noteq> []"
  shows "length (makedirs_head name) < length name"
proof (cases "basename name = []")
  case False
  then have h: "makedirs_head name = dirname name" by (simp add: makedirs_head_def)
  from False have "0 < length (basename name)" by simp
  with length_path_head [of name] length_dirname_le [of name] show ?thesis
    unfolding h by linarith
next
  case True
  with assms have "basename (dirname name) \<noteq> []" by (simp add: makedirs_tail_def)
  then have "0 < length (basename (dirname name))" by simp
  with length_path_head [of "dirname name"] length_dirname_le [of "dirname name"]
  have "length (dirname (dirname name)) < length (dirname name)" by linarith
  moreover have "length (dirname name) \<le> length name"
    using length_path_head [of name] length_dirname_le [of name] by linarith
  moreover have "makedirs_head name = dirname (dirname name)"
    using True by (simp add: makedirs_head_def)
  ultimately show ?thesis by simp
qed

text \<open>\<^verbatim>\<open>os.makedirs(name, exist_ok=True)\<close>.\<close>

function makedirs :: "filesystem \<Rightarrow> string \<Rightarrow> error + filesystem" where
  "makedirs fs name =
     (if makedirs_head name \<noteq> [] \<and> makedirs_tail name \<noteq> []
         \<and> \<not> path_exists fs (makedirs_head name)
      then (case makedirs fs (makedirs_head name) of
              Inl e \<Rightarrow>
                if e = FileExistsError
                then (if makedirs_tail name = ''.'' then Inr fs else mkdir_exist_ok fs name)
                else Inl e
            | Inr fs' \<Rightarrow> if makedirs_tail name = ''.'' then Inr fs' else mkdir_exist_ok fs' name)
      else mkdir_exist_ok fs name)"
  by pat_completeness auto
termination
  by (relation "measure (\<lambda>(fs, name). length name)") (auto simp: makedirs_head_shorter)

declare makedirs.simps [simp del]

definition os_remove :: "filesystem \<Rightarrow> string \<Rightarrow> error + filesystem" where
  "os_remove fs p =
     (case map_of fs p of
        None \<Rightarrow> Inl FileNotFoundError
      | Some Dir \<Rightarrow> Inl IsADirectoryError
      | Some (File _) \<Rightarrow> Inr (AList.delete p fs))"

text \<open>Opening a file for writing and writing the whole content.\<close>

definition write_file :: "filesystem \<Rightarrow> string \<Rightarrow> string \<Rightarrow> error + filesystem" where
  "write_file fs p content =
     (if p = [] then Inl FileNotFoundError
      else if isdir fs p then Inl IsADirectoryError
      else (case parent_error fs p of
              Some e \<Rightarrow> Inl e
            | None \<Rightarrow> Inr (AList.update p (File content) fs)))"

text \<open>
  \<^verbatim>\<open>shutil.move\<close> and \<^verbatim>\<open>shutil.copy2\<close> of a regular file (every caller checks
  \<^verbatim>\<open>os.path.isfile\<close> of the source first, or takes it from a listing): into the
  destination when that is a directory, onto it otherwise, replacing a file there.
\<close>

definition real_dst :: "filesystem \<Rightarrow> string \<Rightarrow> string \<Rightarrow> string" where
  "real_dst fs src dst = (if isdir fs dst then path_join dst (basename src) else dst)"

definition move :: "filesystem \<Rightarrow> string \<Rightarrow> string \<Rightarrow> error + filesystem" where
  "move fs src dst =
     (if isdir fs dst \<and> path_exists fs (real_dst fs src dst) then Inl ShutilError
      else (case map_of fs src of
              Some (File content) \<Rightarrow>
                (case parent_error fs (real_dst fs src dst) of
                   Some e \<Rightarrow> Inl e
                 | None \<Rightarrow>
                     Inr (AList.update (real_dst fs src dst) (File content) (AList.delete src fs)))
            | _ \<Rightarrow> Inl FileNotFoundError))"

definition copy2 :: "filesystem \<Rightarrow> string \<Rightarrow> string \<Rightarrow> error + filesystem" where
  "copy2 fs src dst =
     (case map_of fs src of
        Some (File content) \<Rightarrow>
          if real_dst fs src dst = src then Inl SameFileError
          else if isdir fs (real_dst fs src dst) then Inl IsADirectoryError
          else (case parent_error fs (real_dst fs src dst) of
                  Some e \<Rightarrow> Inl e
                | None \<Rightarrow> Inr (AList.update (real_dst fs src dst) (File content) fs))
      | _ \<Rightarrow> Inl FileNotFoundError)"

text \<open>
  The entries of a directory are the paths of the table directly below it, in the
  order of the table (the order of \<^verbatim>\<open>os.listdir\<close> is arbitrary).
\<close>

definition child_name :: "string \<Rightarrow> string \<Rightarrow> string option" where
  "child_name d k =
     (if prefix (d @ ''/'') k \<and> drop (length d + 1) k \<noteq> []
         \<and> CHR ''/'' \<notin> set (drop (length d + 1) k)
      then Some (drop (length d + 1) k) else None)"

definition listdir_names :: "filesystem \<Rightarrow> string \<Rightarrow> string list" where
  "listdir_names fs d = List.map_filter (child_name d) (map fst fs)"

definition listdir :: "filesystem \<Rightarrow> string \<Rightarrow> error + string list" where
  "listdir fs d =
     (case map_of fs d of
        None \<Rightarrow> Inl FileNotFoundError
      | Some (File _) \<Rightarrow> Inl NotADirectoryError
      | Some Dir \<Rightarrow> Inr (listdir_names fs d))"

text \<open>
  \<^verbatim>\<open>glob.glob(f"{path}/*.*")\<close>, for a path without wildcard characters: the entries of
  the directory whose name has a dot and does not start with one.
\<close>

definition glob_star_dot_star :: "filesystem \<Rightarrow> string \<Rightarrow> string list" where
  "glob_star_dot_star fs path =
     (if isdir fs path
      then map (\<lambda>name. path @ ''/'' @ name)
             (filter (\<lambda>name. hd name \<noteq> CHR ''.'' \<and> CHR ''.'' \<in> set name) (listdir_names fs path))
      else [])"

section \<open>The label codec\<close>

type_synonym rect = "pyfloat list"

fun map_float :: "string list \<Rightarrow> error + pyfloat list" where
  "map_float [] = Inr []"
| "map_float (p # ps) =
     (case py_float p of
        Inl e \<Rightarrow> Inl e
      | Inr v \<Rightarrow> (case map_float ps of Inl e \<Rightarrow> Inl e | Inr vs \<Rightarrow> Inr (v # vs)))"

text \<open>
  The body of the loop of \<^verbatim>\<open>read_yolo_labels\<close> for a line with five fields: unpack
  the five floats, convert to pixels, truncate the class. The elements of the new list
  are evaluated from left to right.
\<close>

definition decode_fields :: "string list \<Rightarrow> int \<Rightarrow> int \<Rightarrow> error + rect" where
  "decode_fields parts w h =
     (case map_float parts of
        Inl e \<Rightarrow> Inl e
      | Inr vs \<Rightarrow>
          (case vs of
             [c, cx, cy, bw, bh] \<Rightarrow>
               bindE (mul_int (fsub cx (fdiv bw 2)) w) (\<lambda>x1.
               bindE (mul_int (fsub cy (fdiv bh 2)) h) (\<lambda>y1.
               bindE (mul_int (fadd cx (fdiv bw 2)) w) (\<lambda>x2.
               bindE (mul_int (fadd cy (fdiv bh 2)) h) (\<lambda>y2.
               bindE (py_int c) (\<lambda>k. Inr [x1, y1, x2, y2, Fin (of_int k)])))))
           | _ \<Rightarrow> Inl ValueError))"

fun decode_lines :: "string list \<Rightarrow> int \<Rightarrow> int \<Rightarrow> error + rect list" where
  "decode_lines [] w h = Inr []"
| "decode_lines (line # ls) w h =
     (let parts = py_split (py_strip line) in
      if length parts \<noteq> 5 then decode_lines ls w h
      else (case decode_fields parts w h of
              Inl e \<Rightarrow> Inl e
            | Inr r \<Rightarrow> (case decode_lines ls w h of Inl e \<Rightarrow> Inl e | Inr rs \<Rightarrow> Inr (r # rs))))"

text \<open>
  \<^verbatim>\<open>read_yolo_labels\<close>. The file is decoded as a whole before its lines are taken; the
  source decodes it buffer by buffer, which changes no result and, for a file longer
  than a buffer, only which of two errors is reported first.
\<close>

definition read_yolo_labels :: "filesystem \<Rightarrow> string \<Rightarrow> int \<Rightarrow> int \<Rightarrow> error + rect list" where
  "read_yolo_labels fs label_path w h =
     (if \<not> isfile fs label_path \<or> getsize fs label_path = 0 then Inr []
      else (case map_of fs label_path of
              Some (File content) \<Rightarrow>
                if utf8_valid content then decode_lines (file_lines content) w h
                else Inl UnicodeDecodeError
            | _ \<Rightarrow> Inr []))"

text \<open>The fields of a line, and the lines the loop of \<^verbatim>\<open>read_yolo_labels\<close> does not skip.\<close>

definition line_fields :: "string \<Rightarrow> string list" where
  "line_fields line = py_split (py_strip line)"

definition five_fields :: "string \<Rightarrow> bool" where
  "five_fields line = (length (line_fields line) = 5)"

text \<open>
  A numeric line: every field is a float literal and the first one, the class, is
  finite.
\<close>

definition numeric_line :: "string \<Rightarrow> bool" where
  "numeric_line line =
     (list_all (\<lambda>p. \<not> isl (py_float p)) (line_fields line)
      \<and> (case line_fields line of
            p # _ \<Rightarrow> (case py_float p of Inr (Fin _) \<Rightarrow> True | _ \<Rightarrow> False)
          | [] \<Rightarrow> False))"

text \<open>One line of \<^verbatim>\<open>save_yolo_labels\<close>: unpack the rectangle, normalise, format.\<close>

definition encode_rect :: "rect \<Rightarrow> int \<Rightarrow> int \<Rightarrow> error + string" where
  "encode_rect r w h =
     (case r of
        [x1, y1, x2, y2, cid] \<Rightarrow>
          bindE (truediv (fdiv (fadd x1 x2) 2) w) (\<lambda>cx.
          bindE (truediv (fdiv (fadd y1 y2) 2) h) (\<lambda>cy.
          bindE (truediv (fsub x2 x1) w) (\<lambda>bw.
          bindE (truediv (fsub y2 y1) h) (\<lambda>bh.
          bindE (py_int cid) (\<lambda>k.
            Inr (show_int k @ '' '' @ format_6f cx @ '' '' @ format_6f cy @ '' ''
                 @ format_6f bw @ '' '' @ format_6f bh @ [CHR 0x0A]))))))
      | _ \<Rightarrow> Inl ValueError)"

fun encode_rects :: "rect list \<Rightarrow> int \<Rightarrow> int \<Rightarrow> error + string list" where
  "encode_rects [] w h = Inr []"
| "encode_rects (r # rs) w h =
     bindE (encode_rect r w h) (\<lambda>l. bindE (encode_rects rs w h) (\<lambda>ls. Inr (l # ls)))"

definition save_yolo_labels ::
  "filesystem \<Rightarrow> string \<Rightarrow> rect list \<Rightarrow> int \<Rightarrow> int \<Rightarrow> error + filesystem" where
  "save_yolo_labels fs label_path rects w h =
     bindE (makedirs fs (dirname label_path)) (\<lambda>fs1.
       if rects = []
       then (if path_exists fs1 label_path then os_remove fs1 label_path else Inr fs1)
       else bindE (encode_rects rects w h) (\<lambda>lines. write_file fs1 label_path (concat lines)))"

section \<open>The project\<close>

definition ALLOWED_EXTS :: "string list" where
  "ALLOWED_EXTS = [''.jpg'', ''.jpeg'', ''.png'']"

definition list_images :: "filesystem \<Rightarrow> string \<Rightarrow> string list" where
  "list_images fs path =
     sort (filter (\<lambda>f. list_ex (endswith (py_lower f)) ALLOWED_EXTS) (glob_star_dot_star fs path))"

definition split_names :: "string list" where
  "split_names = [''train'', ''val'', ''test'']"

definition ok :: "filesystem \<Rightarrow> string \<Rightarrow> bool" where
  "ok fs c = list_ex (\<lambda>s. isdir fs (squeeze_slashes (c @ ''/images/'' @ s))) split_names"

definition yolo_root :: "string \<Rightarrow> filesystem \<Rightarrow> string \<Rightarrow> string option" where
  "yolo_root cwd fs path =
     (let p = py_rstrip_slash (norm_from cwd path);
          cands = [p, norm_from cwd (dirname p), norm_from cwd (dirname (dirname p))]
      in case find (\<lambda>c. c \<noteq> [] \<and> ok fs c) cands of
           Some c \<Rightarrow> Some c
         | None \<Rightarrow>
             (case listdir fs p of
                Inl e \<Rightarrow> None
              | Inr children \<Rightarrow>
                  find (\<lambda>cp. isdir fs cp \<and> ok fs cp)
                    (map (\<lambda>child. norm_from cwd (path_join p child)) children)))"

fun ensure_labels_loop :: "filesystem \<Rightarrow> string \<Rightarrow> string list \<Rightarrow> error + filesystem" where
  "ensure_labels_loop fs root_path [] = Inr fs"
| "ensure_labels_loop fs root_path (s # ss) =
     (if isdir fs (root_path @ ''/images/'' @ s)
      then bindE (makedirs fs (root_path @ ''/labels/'' @ s)) (\<lambda>fs'. ensure_labels_loop fs' root_path ss)
      else ensure_labels_loop fs root_path ss)"

definition ensure_labels :: "filesystem \<Rightarrow> string \<Rightarrow> error + filesystem" where
  "ensure_labels fs root_path = ensure_labels_loop fs root_path split_names"

text \<open>
  The process-wide \<^verbatim>\<open>state\<close> of the source. An endpoint takes the state and the file
  system and returns the new ones with what its response carries.
\<close>

record project_state =
  root :: string
  mode :: string
  split :: string
  images :: "string list"

definition truthy :: "string option \<Rightarrow> bool" where
  "truthy r = (case r of None \<Rightarrow> False | Some x \<Rightarrow> x \<noteq> [])"

definition choose_root :: "string \<Rightarrow> filesystem \<Rightarrow> string \<Rightarrow> string \<Rightarrow> string" where
  "choose_root cwd fs path req_mode =
     (let detected_root = yolo_root cwd fs path
      in if (req_mode = ''yolo'' \<or> req_mode = ''rfdetr'') \<and> truthy detected_root
         then (case detected_root of Some r \<Rightarrow> r | None \<Rightarrow> path)
         else if (req_mode = ''yolo'' \<or> req_mode = ''rfdetr'') \<and> isdir fs (path @ ''/images'')
         then path
         else if req_mode = ''images'' \<and> truthy detected_root
         then (case detected_root of Some r \<Rightarrow> r | None \<Rightarrow> path)
         else path)"

text \<open>The dictionary \<^verbatim>\<open>split_files\<close> keeps the order in which its keys were inserted.\<close>

definition split_files :: "filesystem \<Rightarrow> string \<Rightarrow> (string \<times> string list) list" where
  "split_files fs rootp =
     map (\<lambda>s. (s, list_images fs (rootp @ ''/images/'' @ s)))
       (filter (\<lambda>s. isdir fs (rootp @ ''/images/'' @ s)) split_names)"

definition select_split :: "(string \<times> string list) list \<Rightarrow> string" where
  "select_split sf =
     (let non_empty = map fst (filter (\<lambda>(s, files). files \<noteq> []) sf)
      in if ''train'' \<in> set non_empty then ''train''
         else (case non_empty of
                 s # _ \<Rightarrow> s
               | [] \<Rightarrow> (case sf of (s, _) # _ \<Rightarrow> s | [] \<Rightarrow> ''train'')))"

definition open_project ::
  "string \<Rightarrow> project_state \<Rightarrow> filesystem \<Rightarrow> string \<Rightarrow> string
     \<Rightarrow> error + project_state \<times> filesystem" where
  "open_project cwd st fs req_path req_mode =
     (let path = norm_path req_path
      in if \<not> isdir fs path then Inl (HTTPException 400 ''Folder not found'')
         else
           (let rootp = choose_root cwd fs path req_mode
            in if isdir fs (rootp @ ''/images'')
               then bindE (ensure_labels fs rootp) (\<lambda>fs1.
                      let sf = split_files fs1 rootp;
                          sp = select_split sf
                      in Inr (\<lparr>root = rootp, mode = req_mode, split = sp,
                               images = (case map_of sf sp of Some files \<Rightarrow> files | None \<Rightarrow> [])\<rparr>,
                              fs1))
               else bindE (makedirs fs (rootp @ ''/labels/train'')) (\<lambda>fs1.
                      Inr (\<lparr>root = rootp, mode = req_mode, split = ''train'',
                               images = list_images fs rootp\<rparr>, fs1))))"

text \<open>
  The loop over the label extensions of \<^verbatim>\<open>remove_image\<close> and \<^verbatim>\<open>restore_image\<close>: a
  label that is a regular file in \<open>src_dir\<close> moves to \<open>dst_dir\<close>.
\<close>

fun move_labels ::
  "filesystem \<Rightarrow> string \<Rightarrow> string \<Rightarrow> string \<Rightarrow> string list \<Rightarrow> error + filesystem" where
  "move_labels fs src_dir dst_dir base [] = Inr fs"
| "move_labels fs src_dir dst_dir base (ext # exts) =
     (if isfile fs (src_dir @ ''/'' @ base @ ext)
      then bindE (move fs (src_dir @ ''/'' @ base @ ext) (dst_dir @ ''/'' @ base @ ext))
             (\<lambda>fs'. move_labels fs' src_dir dst_dir base exts)
      else move_labels fs src_dir dst_dir base exts)"

definition refresh_images :: "project_state \<Rightarrow> filesystem \<Rightarrow> string \<Rightarrow> project_state" where
  "refresh_images st fs sp =
     (if isdir fs (root st @ ''/images/'' @ sp)
      then st\<lparr>images := list_images fs (root st @ ''/images/'' @ sp)\<rparr>
      else st)"

text \<open>The result of \<open>remove_image\<close>: the state, the file system, and the response's
  \<^verbatim>\<open>images\<close> and \<^verbatim>\<open>removed\<close>.\<close>

definition remove_image ::
  "project_state \<Rightarrow> filesystem \<Rightarrow> string \<Rightarrow> string
     \<Rightarrow> error + project_state \<times> filesystem \<times> string list \<times> string" where
  "remove_image st fs image_path sp =
     (if root st = [] then Inl (HTTPException 400 ''No project loaded'')
      else
        (let img = norm_path image_path
         in if \<not> isfile fs img then Inl (HTTPException 404 ''Image not found'')
            else
              (let filename = basename img;
                   base = fst (splitext filename);
                   rem_img_dir = root st @ ''/removed/'' @ sp @ ''/images'';
                   rem_lbl_dir = root st @ ''/removed/'' @ sp @ ''/labels''
               in bindE (makedirs fs rem_img_dir) (\<lambda>fs1.
                  bindE (makedirs fs1 rem_lbl_dir) (\<lambda>fs2.
                  bindE (move fs2 img (rem_img_dir @ ''/'' @ filename)) (\<lambda>fs3.
                  bindE (move_labels fs3 (root st @ ''/labels/'' @ sp) rem_lbl_dir base
                           [''.txt'', ''.json'']) (\<lambda>fs4.
                    let st' = refresh_images st fs4 sp
                    in Inr (st', fs4, images st', filename))))))))"

definition restore_image ::
  "project_state \<Rightarrow> filesystem \<Rightarrow> string \<Rightarrow> string
     \<Rightarrow> error + project_state \<times> filesystem \<times> string list \<times> string" where
  "restore_image st fs sp filename =
     (if root st = [] then Inl (HTTPException 400 ''No project loaded'')
      else
        (let base = fst (splitext filename);
             rem_img = root st @ ''/removed/'' @ sp @ ''/images/'' @ filename
         in if \<not> isfile fs rem_img then Inl (HTTPException 404 ''Removed file not found'')
            else
              (let dst_img_dir = root st @ ''/images/'' @ sp;
                   dst_lbl_dir = root st @ ''/labels/'' @ sp
               in bindE (makedirs fs dst_img_dir) (\<lambda>fs1.
                  bindE (makedirs fs1 dst_lbl_dir) (\<lambda>fs2.
                  bindE (move fs2 rem_img (dst_img_dir @ ''/'' @ filename)) (\<lambda>fs3.
                  bindE (move_labels fs3 (root st @ ''/removed/'' @ sp @ ''/labels'') dst_lbl_dir base
                           [''.txt'', ''.json'']) (\<lambda>fs4.
                    let st' = refresh_images st fs4 sp
                    in Inr (st', fs4, images st', filename))))))))"

section \<open>Export\<close>

text \<open>
  Two collaborators of \<^verbatim>\<open>export_all\<close> are parameters: \<open>image_size\<close> reads the width and
  height of an image from the content of its file (\<^verbatim>\<open>Image.open\<close>, \<open>None\<close> when the
  content is not an image), and \<open>json_dump\<close> is the text that \<^verbatim>\<open>json.dump\<close> writes for the
  items of one split. An entry is a split, an image path and a label path; an item is
  the image name, the split, the width, the height and the annotations, each a class,
  a pixel box and a normalised box.
\<close>

type_synonym entry = "string \<times> string \<times> string"

type_synonym annotation = "int \<times> pyfloat list \<times> pyfloat list"

type_synonym manifest_item = "string \<times> string \<times> int \<times> int \<times> annotation list"

definition label_of :: "string \<Rightarrow> string \<Rightarrow> string \<Rightarrow> string" where
  "label_of root_path sp img =
     root_path @ ''/labels/'' @ sp @ ''/'' @ fst (splitext (basename img)) @ ''.txt''"

definition export_entries :: "project_state \<Rightarrow> filesystem \<Rightarrow> entry list" where
  "export_entries st fs =
     (if isdir fs (root st @ ''/images'')
      then concat (map (\<lambda>sp.
             if \<not> isdir fs (root st @ ''/images/'' @ sp) then []
             else map (\<lambda>img. (sp, img, label_of (root st) sp img))
                    (list_images fs (root st @ ''/images/'' @ sp))) split_names)
      else map (\<lambda>img. (''train'', img, label_of (root st) ''train'' img)) (list_images fs (root st)))"

fun export_yolo :: "filesystem \<Rightarrow> string \<Rightarrow> entry list \<Rightarrow> error + filesystem" where
  "export_yolo fs out_dir [] = Inr fs"
| "export_yolo fs out_dir ((sp, img, lbl) # es) =
     bindE (makedirs fs (out_dir @ ''/images/'' @ sp)) (\<lambda>fs1.
     bindE (makedirs fs1 (out_dir @ ''/labels/'' @ sp)) (\<lambda>fs2.
     bindE (copy2 fs2 img (out_dir @ ''/images/'' @ sp @ ''/'' @ basename img)) (\<lambda>fs3.
     bindE (if isfile fs3 lbl
            then copy2 fs3 lbl (out_dir @ ''/labels/'' @ sp @ ''/'' @ basename lbl)
            else Inr fs3) (\<lambda>fs4.
       export_yolo fs4 out_dir es))))"

definition annotation_of :: "rect \<Rightarrow> int \<Rightarrow> int \<Rightarrow> error + annotation" where
  "annotation_of r w h =
     (case r of
        [x1, y1, x2, y2, cid] \<Rightarrow>
          bindE (truediv (fdiv (fadd x1 x2) 2) w) (\<lambda>cx.
          bindE (truediv (fdiv (fadd y1 y2) 2) h) (\<lambda>cy.
          bindE (truediv (fsub x2 x1) w) (\<lambda>bw.
          bindE (truediv (fsub y2 y1) h) (\<lambda>bh.
          bindE (py_int cid) (\<lambda>k. Inr (k, [x1, y1, x2, y2], [cx, cy, bw, bh]))))))
      | _ \<Rightarrow> Inl ValueError)"

fun annotations_of :: "rect list \<Rightarrow> int \<Rightarrow> int \<Rightarrow> error + annotation list" where
  "annotations_of [] w h = Inr []"
| "annotations_of (r # rs) w h =
     bindE (annotation_of r w h) (\<lambda>a. bindE (annotations_of rs w h) (\<lambda>as. Inr (a # as)))"

text \<open>\<^verbatim>\<open>by_split.setdefault(split, []).append(item)\<close> on a dictionary in insertion order.\<close>

fun setdefault_append ::
  "(string \<times> manifest_item list) list \<Rightarrow> string \<Rightarrow> manifest_item
     \<Rightarrow> (string \<times> manifest_item list) list" where
  "setdefault_append [] sp item = [(sp, [item])]"
| "setdefault_append ((k, items) # rest) sp item =
     (if k = sp then (k, items @ [item]) # rest else (k, items) # setdefault_append rest sp item)"

definition image_open :: "(string \<Rightarrow> (int \<times> int) option) \<Rightarrow> filesystem \<Rightarrow> string \<Rightarrow> error + int \<times> int" where
  "image_open image_size fs img =
     (case map_of fs img of
        Some (File content) \<Rightarrow>
          (case image_size content of None \<Rightarrow> Inl UnidentifiedImageError | Some wh \<Rightarrow> Inr wh)
      | Some Dir \<Rightarrow> Inl IsADirectoryError
      | None \<Rightarrow> Inl FileNotFoundError)"

fun export_json ::
  "(string \<Rightarrow> (int \<times> int) option) \<Rightarrow> filesystem \<Rightarrow> string \<Rightarrow> entry list
     \<Rightarrow> (string \<times> manifest_item list) list
     \<Rightarrow> error + filesystem \<times> (string \<times> manifest_item list) list" where
  "export_json image_size fs out_dir [] by_split = Inr (fs, by_split)"
| "export_json image_size fs out_dir ((sp, img, lbl) # es) by_split =
     bindE (makedirs fs (out_dir @ ''/images/'' @ sp)) (\<lambda>fs1.
     bindE (makedirs fs1 (out_dir @ ''/annotations'')) (\<lambda>fs2.
     bindE (copy2 fs2 img (out_dir @ ''/images/'' @ sp @ ''/'' @ basename img)) (\<lambda>fs3.
     bindE (image_open image_size fs3 img) (\<lambda>(w, h).
     bindE (read_yolo_labels fs3 lbl w h) (\<lambda>rects.
     bindE (annotations_of rects w h) (\<lambda>anns.
       export_json image_size fs3 out_dir es
         (setdefault_append by_split sp (basename img, sp, w, h, anns))))))))"

fun write_manifests ::
  "(manifest_item list \<Rightarrow> string) \<Rightarrow> filesystem \<Rightarrow> string
     \<Rightarrow> (string \<times> manifest_item list) list \<Rightarrow> error + filesystem" where
  "write_manifests json_dump fs out_dir [] = Inr fs"
| "write_manifests json_dump fs out_dir ((sp, items) # rest) =
     bindE (write_file fs (out_dir @ ''/annotations/'' @ sp @ ''.json'') (json_dump items))
       (\<lambda>fs'. write_manifests json_dump fs' out_dir rest)"

text \<open>The result of \<open>export_all\<close>: the file system and the response's \<^verbatim>\<open>count\<close> and
  \<^verbatim>\<open>output\<close>.\<close>

definition export_all ::
  "(string \<Rightarrow> (int \<times> int) option) \<Rightarrow> (manifest_item list \<Rightarrow> string)
     \<Rightarrow> project_state \<Rightarrow> filesystem \<Rightarrow> string \<Rightarrow> string
     \<Rightarrow> error + filesystem \<times> nat \<times> string" where
  "export_all image_size json_dump st fs output_dir fmt =
     (if root st = [] then Inl (HTTPException 400 ''No project loaded'')
      else
        (let out_dir = norm_path output_dir
         in bindE (makedirs fs out_dir) (\<lambda>fs1.
              let entries = export_entries st fs1
              in bindE (if fmt = ''YOLO (.txt)'' then export_yolo fs1 out_dir entries
                        else bindE (export_json image_size fs1 out_dir entries [])
                               (\<lambda>(fs2, by_split). write_manifests json_dump fs2 out_dir by_split))
                   (\<lambda>fs'. Inr (fs', length entries, out_dir)))))"



text \<open>
  A well-formed file system: no path is listed twice, and a path with a directory part
  lies in an existing directory.
\<close>

definition wf_fs :: "filesystem \<Rightarrow> bool" where
  "wf_fs fs = (distinct (map fst fs) \<and> list_all (\<lambda>(p, n). parent_error fs p = None) fs)"

text \<open>
  The choice of the active split in the words of the specification, from which splits
  are present and which are not empty.
\<close>

definition spec_active_split :: "(string \<Rightarrow> bool) \<Rightarrow> (string \<Rightarrow> bool) \<Rightarrow> string" where
  "spec_active_split present non_empty =
     (if present ''train'' \<and> non_empty ''train'' then ''train''
      else (case filter (\<lambda>s. present s \<and> non_empty s) [''train'', ''val'', ''test''] of
              s # _ \<Rightarrow> s
            | [] \<Rightarrow> (case filter present [''train'', ''val'', ''test''] of
                       s # _ \<Rightarrow> s
                     | [] \<Rightarrow> ''train'')))"

text \<open>A path that \<open>glob_star_dot_star\<close> returns for the directory \<open>d\<close>.\<close>

definition glob_match :: "string \<Rightarrow> string \<Rightarrow> bool" where
  "glob_match d k =
     (case child_name d k of Some n \<Rightarrow> hd n \<noteq> CHR ''.'' \<and> CHR ''.'' \<in> set n | None \<Rightarrow> False)"

section \<open>Properties of the file system operations\<close>

lemma bindE_Inr_iff:
  "bindE m f = Inr y \<longleftrightarrow> (\<exists>x. m = Inr x \<and> f x = Inr y)"
  by (cases m) (simp_all add: bindE_def)

lemma bindE_Inr [simp]: "bindE (Inr x) f = f x"
  by (simp add: bindE_def)

lemma bindE_Inl [simp]: "bindE (Inl e) f = Inl e"
  by (simp add: bindE_def)

lemma isfile_iff: "isfile fs p \<longleftrightarrow> (\<exists>c. map_of fs p = Some (File c))"
  by (auto simp: isfile_def split: option.splits node.splits)

lemma prefix_path_head: "prefix (path_head p) p"
proof -
  have "p = rev (dropWhile (\<lambda>c. c \<noteq> CHR ''/'') (rev p)) @ rev (takeWhile (\<lambda>c. c \<noteq> CHR ''/'') (rev p))"
    by (metis rev_append rev_rev_ident takeWhile_dropWhile_id)
  then show ?thesis unfolding path_head_def by (metis prefixI)
qed

lemma prefix_rstrip_slash: "prefix (py_rstrip_slash s) s"
proof -
  have "s = rev (dropWhile (\<lambda>c. c = CHR ''/'') (rev s)) @ rev (takeWhile (\<lambda>c. c = CHR ''/'') (rev s))"
    by (metis rev_append rev_rev_ident takeWhile_dropWhile_id)
  then show ?thesis unfolding py_rstrip_slash_def by (metis prefixI)
qed

lemma prefix_dirname: "prefix (dirname p) p"
proof -
  have "prefix (dirname p) (path_head p)"
    by (simp add: dirname_def Let_def prefix_rstrip_slash)
  then show ?thesis using prefix_path_head [of p] by (rule prefix_order.trans)
qed

lemma prefix_makedirs_head: "prefix (makedirs_head n) n"
  unfolding makedirs_head_def
  using prefix_dirname [of n] prefix_dirname [of "dirname n"]
  by (auto intro: prefix_order.trans)

lemma mkdir_Inr:
  "mkdir fs n = Inr fs' \<Longrightarrow> fs' = fs @ [(n, Dir)] \<and> map_of fs n = None"
  by (auto simp: mkdir_def path_exists_def split: if_splits option.splits)

lemma mkdir_exist_ok_Inr:
  "mkdir_exist_ok fs n = Inr fs' \<Longrightarrow>
     (fs' = fs \<and> isdir fs n) \<or> (fs' = fs @ [(n, Dir)] \<and> map_of fs n = None)"
  by (auto simp: mkdir_exist_ok_def dest: mkdir_Inr split: sum.splits if_splits)

definition dirs_of :: "string list \<Rightarrow> filesystem" where
  "dirs_of ks = map (\<lambda>k. (k, Dir)) ks"

lemma map_of_dirs_of: "map_of (dirs_of ks) p = (if p \<in> set ks then Some Dir else None)"
  by (induction ks) (auto simp: dirs_of_def)

lemma map_of_append_dirs:
  "map_of (fs @ dirs_of ks) p =
     (case map_of fs p of Some v \<Rightarrow> Some v | None \<Rightarrow> if p \<in> set ks then Some Dir else None)"
  by (simp add: map_add_def map_of_dirs_of split: option.splits)

lemma mkdir_exist_ok_shape:
  assumes "mkdir_exist_ok f name = Inr f'" "f = fs @ dirs_of ks" "distinct ks"
    "\<forall>k\<in>set ks. prefix k name \<and> map_of fs k = None"
  shows "\<exists>ks'. f' = fs @ dirs_of ks' \<and> distinct ks'
            \<and> (\<forall>k\<in>set ks'. prefix k name \<and> map_of fs k = None)"
proof -
  from mkdir_exist_ok_Inr [OF assms(1)]
  consider "f' = f" | "f' = f @ [(name, Dir)]" "map_of f name = None" by auto
  then show ?thesis
  proof cases
    case 1
    with assms show ?thesis by blast
  next
    case 2
    from 2(2) assms(2) have n: "name \<notin> set ks" "map_of fs name = None"
      by (auto simp: map_of_append_dirs simp del: map_of_append split: option.splits if_splits)
    have "f' = fs @ dirs_of (ks @ [name])"
      using 2(1) assms(2) by (simp add: dirs_of_def)
    moreover have "distinct (ks @ [name])" using assms(3) n by simp
    moreover have "\<forall>k\<in>set (ks @ [name]). prefix k name \<and> map_of fs k = None"
      using assms(4) n by auto
    ultimately show ?thesis by blast
  qed
qed

lemma makedirs_shape:
  "makedirs fs n = Inr fs' \<Longrightarrow>
   \<exists>ks. fs' = fs @ dirs_of ks \<and> distinct ks \<and> (\<forall>k\<in>set ks. prefix k n \<and> map_of fs k = None)"
proof (induction fs n arbitrary: fs' rule: makedirs.induct)
  case (1 fs name)
  let ?c = "makedirs_head name \<noteq> [] \<and> makedirs_tail name \<noteq> []
            \<and> \<not> path_exists fs (makedirs_head name)"
  have empty: "fs = fs @ dirs_of []" "distinct ([]::string list)"
    "\<forall>k\<in>set ([]::string list). prefix k name \<and> map_of fs k = None"
    by (simp_all add: dirs_of_def)
  show ?case
  proof (cases ?c)
    case False
    with "1.prems" have "mkdir_exist_ok fs name = Inr fs'"
      by (subst (asm) makedirs.simps) simp
    from mkdir_exist_ok_shape [OF this empty] show ?thesis .
  next
    case True
    show ?thesis
    proof (cases "makedirs fs (makedirs_head name)")
      case (Inl e)
      with True "1.prems" have "fs' = fs \<or> mkdir_exist_ok fs name = Inr fs'"
        by (subst (asm) makedirs.simps) (auto split: if_splits)
      then show ?thesis
      proof
        assume "fs' = fs"
        with empty show ?thesis by blast
      next
        assume "mkdir_exist_ok fs name = Inr fs'"
        from mkdir_exist_ok_shape [OF this empty] show ?thesis .
      qed
    next
      case (Inr fs1)
      from "1.IH" [OF True Inr] obtain ks where ks: "fs1 = fs @ dirs_of ks" "distinct ks"
        "\<forall>k\<in>set ks. prefix k (makedirs_head name) \<and> map_of fs k = None"
        by blast
      from ks(3) have ks': "\<forall>k\<in>set ks. prefix k name \<and> map_of fs k = None"
        using prefix_makedirs_head [of name] by (auto intro: prefix_order.trans)
      from True Inr "1.prems" have "fs' = fs1 \<or> mkdir_exist_ok fs1 name = Inr fs'"
        by (subst (asm) makedirs.simps) (auto split: if_splits)
      then show ?thesis
      proof
        assume "fs' = fs1"
        with ks(1,2) ks' show ?thesis by blast
      next
        assume "mkdir_exist_ok fs1 name = Inr fs'"
        from mkdir_exist_ok_shape [OF this ks(1,2) ks'] show ?thesis .
      qed
    qed
  qed
qed

lemma makedirs_map_of:
  assumes "makedirs fs n = Inr fs'"
  shows "map_of fs' p = map_of fs p
       \<or> (map_of fs p = None \<and> map_of fs' p = Some Dir \<and> prefix p n)"
proof -
  from makedirs_shape [OF assms] obtain ks where
    "fs' = fs @ dirs_of ks" "\<forall>k\<in>set ks. prefix k n \<and> map_of fs k = None" by blast
  then show ?thesis by (auto simp: map_of_append_dirs simp del: map_of_append split: option.splits)
qed

lemma makedirs_preserves:
  "makedirs fs n = Inr fs' \<Longrightarrow> map_of fs p = Some v \<Longrightarrow> map_of fs' p = Some v"
  using makedirs_map_of [of fs n fs' p] by auto

lemma makedirs_file:
  "makedirs fs n = Inr fs' \<Longrightarrow> map_of fs' p = Some (File c) \<longleftrightarrow> map_of fs p = Some (File c)"
  using makedirs_map_of [of fs n fs' p] by auto

lemma makedirs_isfile:
  "makedirs fs n = Inr fs' \<Longrightarrow> isfile fs' p = isfile fs p"
  by (simp add: isfile_iff makedirs_file)

lemma makedirs_frame:
  "makedirs fs n = Inr fs' \<Longrightarrow> \<not> prefix p n \<Longrightarrow> map_of fs' p = map_of fs p"
  using makedirs_map_of [of fs n fs' p] by auto

lemma makedirs_distinct:
  assumes "makedirs fs n = Inr fs'" "distinct (map fst fs)"
  shows "distinct (map fst fs')"
proof -
  from makedirs_shape [OF assms(1)] obtain ks where ks:
    "fs' = fs @ dirs_of ks" "distinct ks" "\<forall>k\<in>set ks. prefix k n \<and> map_of fs k = None" by blast
  have "map fst (dirs_of ks) = ks" by (simp add: dirs_of_def comp_def)
  moreover have "set ks \<inter> fst ` set fs = {}"
    using ks(3) by (auto simp: map_of_eq_None_iff)
  ultimately show ?thesis using ks(1,2) assms(2) by auto
qed

lemma makedirs_isdir:
  assumes "makedirs fs n = Inr fs'" "makedirs_tail n \<noteq> ''.''"
  shows "isdir fs' n"
proof -
  have m: "\<And>f. mkdir_exist_ok f n = Inr fs' \<Longrightarrow> isdir fs' n"
    by (auto simp: isdir_def map_add_def dest!: mkdir_exist_ok_Inr)
  from assms show ?thesis
    by (subst (asm) makedirs.simps) (auto split: if_splits sum.splits intro: m)
qed

lemma mkdir_error:
  "mkdir fs n = Inl e \<Longrightarrow> e \<in> {FileNotFoundError, FileExistsError, NotADirectoryError}"
  by (auto simp: mkdir_def parent_error_def split: if_splits option.splits node.splits)

lemma makedirs_error:
  "makedirs fs n = Inl e \<Longrightarrow> e \<in> {FileNotFoundError, FileExistsError, NotADirectoryError}"
proof (induction fs n arbitrary: e rule: makedirs.induct)
  case (1 fs name)
  let ?c = "makedirs_head name \<noteq> [] \<and> makedirs_tail name \<noteq> []
            \<and> \<not> path_exists fs (makedirs_head name)"
  have m: "\<And>f e. mkdir_exist_ok f name = Inl e \<Longrightarrow>
             e \<in> {FileNotFoundError, FileExistsError, NotADirectoryError}"
    by (auto simp: mkdir_exist_ok_def split: sum.splits if_splits dest: mkdir_error)
  show ?case
  proof (cases ?c)
    case False
    with "1.prems" have "mkdir_exist_ok fs name = Inl e"
      by (subst (asm) makedirs.simps) simp
    then show ?thesis by (rule m)
  next
    case True
    show ?thesis
    proof (cases "makedirs fs (makedirs_head name)")
      case (Inl e')
      from "1.IH" [OF True Inl] have e': "e' \<in> {FileNotFoundError, FileExistsError, NotADirectoryError}" .
      from True Inl "1.prems" have "e = e' \<or> mkdir_exist_ok fs name = Inl e"
        by (subst (asm) makedirs.simps) (auto split: if_splits)
      then show ?thesis using e' m by blast
    next
      case (Inr fs1)
      with True "1.prems" have "mkdir_exist_ok fs1 name = Inl e"
        by (subst (asm) makedirs.simps) (auto split: if_splits)
      then show ?thesis by (rule m)
    qed
  qed
qed

section \<open>Decoding a missing or empty label file\<close>

text \<open>
  Claim C9. For every file system, path, width and height, \<open>read_yolo_labels\<close> on a
  path that is not a regular file, or on a regular file of size zero, returns the empty
  list of rectangles and raises nothing.
\<close>

theorem read_yolo_labels_missing_or_empty:
  "\<not> isfile fs label_path \<or> map_of fs label_path = Some (File [])
   \<Longrightarrow> read_yolo_labels fs label_path w h = Inr []"
  by (auto simp: read_yolo_labels_def getsize_def)

theorem read_yolo_labels_missing_or_empty_witness:
  "read_yolo_labels [(''/d/labels/train/a.txt'', File [])] ''/d/labels/train/a.txt'' 100 200 = Inr []
   \<and> read_yolo_labels [] ''/d/labels/train/a.txt'' 100 200 = Inr []"
  using read_yolo_labels_missing_or_empty
          [of "[(''/d/labels/train/a.txt'', File [])]" "''/d/labels/train/a.txt''" 100 200]
        read_yolo_labels_missing_or_empty [of "[]" "''/d/labels/train/a.txt''" 100 200]
  by (simp add: isfile_def)

section \<open>Decoding a file with malformed lines\<close>

lemma map_float_Inr:
  "list_all (\<lambda>p. \<not> isl (py_float p)) ps \<Longrightarrow> map_float ps = Inr (map (\<lambda>p. projr (py_float p)) ps)"
  by (induction ps) (auto split: sum.splits)

lemma map_float_Inl:
  "\<not> list_all (\<lambda>p. \<not> isl (py_float p)) ps \<Longrightarrow> isl (map_float ps)"
  by (induction ps) (auto split: sum.splits)

lemma length5:
  "length ps = 5 \<Longrightarrow> \<exists>a b c d e. ps = [a, b, c, d, e]"
  by (auto simp: length_Suc_conv eval_nat_numeral)

lemma decode_fields_ok:
  assumes "length (line_fields l) = 5" "numeric_line l"
    and "\<not> float_overflows (of_int w)" "\<not> float_overflows (of_int h)"
  shows "\<not> isl (decode_fields (line_fields l) w h)"
proof -
  obtain a b c d e where ps: "line_fields l = [a, b, c, d, e]"
    using length5 [OF assms(1)] by blast
  from assms(2) have all: "list_all (\<lambda>p. \<not> isl (py_float p)) (line_fields l)"
    and cls: "\<exists>r. py_float a = Inr (Fin r)"
    by (auto simp: numeric_line_def ps split: sum.splits pyfloat.splits)
  from cls obtain r where r: "py_float a = Inr (Fin r)" by blast
  have "map_float (line_fields l) = Inr (map (\<lambda>p. projr (py_float p)) (line_fields l))"
    by (rule map_float_Inr [OF all])
  then show ?thesis
    using assms(3,4) by (simp add: decode_fields_def ps r mul_int_def float_of_int_def)
qed

lemma decode_fields_bad:
  assumes "length (line_fields l) = 5" "\<not> numeric_line l"
  shows "isl (decode_fields (line_fields l) w h)"
proof -
  obtain a b c d e where ps: "line_fields l = [a, b, c, d, e]"
    using length5 [OF assms(1)] by blast
  show ?thesis
  proof (cases "list_all (\<lambda>p. \<not> isl (py_float p)) (line_fields l)")
    case False
    then have "isl (map_float (line_fields l))" by (rule map_float_Inl)
    then show ?thesis by (auto simp: decode_fields_def split: sum.splits)
  next
    case True
    then have m: "map_float (line_fields l) = Inr (map (\<lambda>p. projr (py_float p)) (line_fields l))"
      by (rule map_float_Inr)
    from True assms(2) have "\<not> (\<exists>r. py_float a = Inr (Fin r))"
      by (auto simp: numeric_line_def ps)
    moreover from True obtain v where v: "py_float a = Inr v"
      by (cases "py_float a") (auto simp: ps)
    ultimately have "isl (py_int v)" by (cases v) auto
    then show ?thesis
      by (auto simp: decode_fields_def m ps v mul_int_def float_of_int_def bindE_def
          split: sum.splits)
  qed
qed

lemma decode_lines_skip:
  "\<not> five_fields l \<Longrightarrow> decode_lines (l # ls) w h = decode_lines ls w h"
  by (simp add: five_fields_def line_fields_def Let_def)

lemma decode_lines_five:
  "five_fields l \<Longrightarrow>
   decode_lines (l # ls) w h =
     (case decode_fields (line_fields l) w h of
        Inl e \<Rightarrow> Inl e
      | Inr r \<Rightarrow> (case decode_lines ls w h of Inl e \<Rightarrow> Inl e | Inr rs \<Rightarrow> Inr (r # rs)))"
  by (simp add: five_fields_def line_fields_def Let_def)

lemma decode_lines_filter:
  "decode_lines ls w h = decode_lines (filter five_fields ls) w h"
proof (induction ls)
  case Nil
  show ?case by simp
next
  case (Cons l ls)
  show ?case
  proof (cases "five_fields l")
    case True
    then show ?thesis
      using Cons.IH by (simp add: decode_lines_five del: decode_lines.simps split: sum.splits)
  next
    case False
    then show ?thesis
      using Cons.IH by (simp add: decode_lines_skip del: decode_lines.simps)
  qed
qed

lemma decode_lines_ok:
  assumes "\<not> float_overflows (of_int w)" "\<not> float_overflows (of_int h)"
  shows "list_all numeric_line (filter five_fields ls) \<Longrightarrow>
   decode_lines ls w h = Inr (map (\<lambda>l. projr (decode_fields (line_fields l) w h)) (filter five_fields ls))"
proof (induction ls)
  case Nil
  then show ?case by simp
next
  case (Cons l ls)
  show ?case
  proof (cases "five_fields l")
    case False
    with Cons show ?thesis by (simp add: decode_lines_skip del: decode_lines.simps)
  next
    case True
    with Cons.prems have "numeric_line l" by simp
    with True have "\<not> isl (decode_fields (line_fields l) w h)"
      using assms by (simp add: five_fields_def decode_fields_ok)
    then obtain r where r: "decode_fields (line_fields l) w h = Inr r"
      by (cases "decode_fields (line_fields l) w h") auto
    from Cons True have "decode_lines ls w h =
        Inr (map (\<lambda>l. projr (decode_fields (line_fields l) w h)) (filter five_fields ls))"
      by simp
    with True r show ?thesis
      by (simp add: decode_lines_five del: decode_lines.simps)
  qed
qed

lemma decode_lines_bad:
  "\<not> list_all numeric_line (filter five_fields ls) \<Longrightarrow> isl (decode_lines ls w h)"
proof (induction ls)
  case Nil
  then show ?case by simp
next
  case (Cons l ls)
  show ?case
  proof (cases "five_fields l")
    case False
    with Cons show ?thesis by (simp add: decode_lines_skip del: decode_lines.simps)
  next
    case True
    show ?thesis
    proof (cases "numeric_line l")
      case False
      with True have "isl (decode_fields (line_fields l) w h)"
        by (simp add: five_fields_def decode_fields_bad)
      with True show ?thesis
        by (auto simp: decode_lines_five simp del: decode_lines.simps split: sum.splits)
    next
      case n: True
      with Cons True have "isl (decode_lines ls w h)" by simp
      with True show ?thesis
        by (auto simp: decode_lines_five simp del: decode_lines.simps split: sum.splits)
    qed
  qed
qed

lemma double_limit_eq: "double_limit = 2 ^ 1024 - 2 ^ 970"
  by (simp add: double_limit_def)

lemma utf8_valid_ascii: "list_all (byte_in 0x00 0x7F) s \<Longrightarrow> utf8_valid s"
  by (induction s) simp_all

text \<open>
  Claim C4, as amended. A label file that is not well-formed UTF-8 makes
  \<open>read_yolo_labels\<close> raise. On a file of ASCII text \<open>read_yolo_labels\<close> skips every line
  whose number of white-space separated fields is not five: its result is the result of
  decoding the five-field lines alone. When every five-field line is numeric and the
  width and the height fit a double, the result is one rectangle for each of them, in
  order. When some five-field line has a field that is not a float literal, or a class
  that is infinite or NaN, \<open>read_yolo_labels\<close> raises.
\<close>

theorem read_yolo_labels_skips_other_field_counts:
  assumes "map_of fs label_path = Some (File content)"
  shows "(\<not> utf8_valid content \<longrightarrow> isl (read_yolo_labels fs label_path w h))
       \<and> (list_all (byte_in 0x00 0x7F) content \<longrightarrow>
            read_yolo_labels fs label_path w h
              = decode_lines (filter five_fields (file_lines content)) w h
          \<and> (list_all numeric_line (filter five_fields (file_lines content))
               \<and> \<not> float_overflows (of_int w) \<and> \<not> float_overflows (of_int h) \<longrightarrow>
                read_yolo_labels fs label_path w h
                  = Inr (map (\<lambda>l. projr (decode_fields (line_fields l) w h))
                           (filter five_fields (file_lines content))))
          \<and> (\<not> list_all numeric_line (filter five_fields (file_lines content)) \<longrightarrow>
                isl (read_yolo_labels fs label_path w h)))"
proof (intro conjI impI)
  assume n: "\<not> utf8_valid content"
  then have "content \<noteq> []" by auto
  then show "isl (read_yolo_labels fs label_path w h)"
    using assms n by (simp add: read_yolo_labels_def getsize_def isfile_def del: utf8_valid.simps)
next
  assume a: "list_all (byte_in 0x00 0x7F) content"
  have v: "utf8_valid content" using a by (rule utf8_valid_ascii)
  have r: "read_yolo_labels fs label_path w h = decode_lines (file_lines content) w h"
  proof (cases "content = []")
    case True
    then show ?thesis using assms by (simp add: read_yolo_labels_def getsize_def file_lines_def)
  next
    case False
    then show ?thesis
      using assms v
      by (simp add: read_yolo_labels_def getsize_def isfile_def del: utf8_valid.simps)
  qed
  show "read_yolo_labels fs label_path w h
          = decode_lines (filter five_fields (file_lines content)) w h"
    unfolding r by (rule decode_lines_filter)
  show "read_yolo_labels fs label_path w h
          = Inr (map (\<lambda>l. projr (decode_fields (line_fields l) w h))
                   (filter five_fields (file_lines content)))"
    if "list_all numeric_line (filter five_fields (file_lines content))
        \<and> \<not> float_overflows (of_int w) \<and> \<not> float_overflows (of_int h)"
    unfolding r using that decode_lines_ok [of w h "file_lines content"] by blast
  show "isl (read_yolo_labels fs label_path w h)"
    if "\<not> list_all numeric_line (filter five_fields (file_lines content))"
    unfolding r using that by (rule decode_lines_bad)
qed

lemmas codec_eval = read_yolo_labels_def isfile_def getsize_def file_lines_def py_strip_def
  is_space_def decode_fields_def py_float_def parse_abs_float_def py_lower_def py_lower_char_def
  parse_number_def parse_mantissa_def parse_exponent_def is_exp_char_def is_digit_def
  digit_val_def nat_of_digits_def frac_of_digits_def fsub_def trunc_def line_fields_def
  five_fields_def numeric_line_def inf_of_sign_def to_float_def float_overflows_def
  double_limit_def mul_int_def float_of_int_def byte_in_def

theorem read_yolo_labels_skips_other_field_counts_witness:
  "list_all (byte_in 0x00 0x7F) ''0 0.5 0.5 0.2\<newline>0 0.5 0.5 0.2 0.4\<newline>1 2 3 4 5 6\<newline>''
   \<and> list_all numeric_line
         (filter five_fields
            (file_lines ''0 0.5 0.5 0.2\<newline>0 0.5 0.5 0.2 0.4\<newline>1 2 3 4 5 6\<newline>''))
   \<and> \<not> float_overflows (of_int 100) \<and> \<not> float_overflows (of_int 200)
   \<and> read_yolo_labels
         [(''/d/labels/train/a.txt'',
           File ''0 0.5 0.5 0.2\<newline>0 0.5 0.5 0.2 0.4\<newline>1 2 3 4 5 6\<newline>'')]
         ''/d/labels/train/a.txt'' 100 200
       = Inr (map (\<lambda>l. projr (decode_fields (line_fields l) 100 200))
                (filter five_fields
                   (file_lines ''0 0.5 0.5 0.2\<newline>0 0.5 0.5 0.2 0.4\<newline>1 2 3 4 5 6\<newline>'')))
   \<and> map (\<lambda>l. projr (decode_fields (line_fields l) 100 200))
         (filter five_fields
            (file_lines ''0 0.5 0.5 0.2\<newline>0 0.5 0.5 0.2 0.4\<newline>1 2 3 4 5 6\<newline>''))
       = [[Fin 40, Fin 60, Fin 60, Fin 140, Fin 0]]"
proof -
  let ?c = "''0 0.5 0.5 0.2\<newline>0 0.5 0.5 0.2 0.4\<newline>1 2 3 4 5 6\<newline>''"
  let ?fs = "[(''/d/labels/train/a.txt'', File ?c)]"
  have h1: "map_of ?fs ''/d/labels/train/a.txt'' = Some (File ?c)" by simp
  have h2: "list_all (byte_in 0x00 0x7F) ?c" by code_simp
  have h3: "list_all numeric_line (filter five_fields (file_lines ?c))" by code_simp
  have h4: "\<not> float_overflows (of_int 100)" "\<not> float_overflows (of_int 200)"
    by (simp_all add: float_overflows_def double_limit_def)
  have h5: "map (\<lambda>l. projr (decode_fields (line_fields l) 100 200))
              (filter five_fields (file_lines ?c))
            = [[Fin 40, Fin 60, Fin 60, Fin 140, Fin 0]]"
    by code_simp
  from read_yolo_labels_skips_other_field_counts [OF h1, of 100 200] h2 h3 h4
  have "read_yolo_labels ?fs ''/d/labels/train/a.txt'' 100 200
        = Inr (map (\<lambda>l. projr (decode_fields (line_fields l) 100 200))
                 (filter five_fields (file_lines ?c)))"
    by blast
  with h2 h3 h4 h5 show ?thesis by blast
qed

text \<open>
  The claim as stated fails: a line with five fields of which one is not a number makes
  \<open>read_yolo_labels\<close> raise \<^verbatim>\<open>ValueError\<close>, although the line before it is well formed.
\<close>

theorem read_yolo_labels_raises_on_non_numeric_field:
  "read_yolo_labels
     [(''/d/labels/train/a.txt'', File ''0 0.5 0.5 0.2 0.4\<newline>x 0.5 0.5 0.2 0.4\<newline>'')]
     ''/d/labels/train/a.txt'' 100 200 = Inl ValueError"
  by code_simp

section \<open>Root resolution\<close>








section \<open>Export with an unknown format\<close>

text \<open>
  Claim C5, as amended. \<open>export_all\<close> compares the format with \<^verbatim>\<open>YOLO (.txt)\<close> only: every
  other format string is exported as the JSON manifest, exactly as \<^verbatim>\<open>JSON\<close> is, and no
  format string makes the export fail.
\<close>

theorem export_all_other_format_is_json:
  "fmt \<noteq> ''YOLO (.txt)'' \<Longrightarrow>
   export_all image_size json_dump st fs output_dir fmt
     = export_all image_size json_dump st fs output_dir ''JSON''"
  by (simp add: export_all_def)

text \<open>
  The claim as stated fails: with the format \<^verbatim>\<open>COCO\<close> the export of a flat project with
  one image succeeds and writes the manifest.
\<close>

theorem export_all_unknown_format_succeeds:
  "export_all (\<lambda>content. Some (100, 200)) (\<lambda>items. ''[]'')
     \<lparr>root = ''/d'', mode = ''images'', split = ''train'', images = [''/d/a.jpg'']\<rparr>
     [(''/'', Dir), (''/d'', Dir), (''/d/a.jpg'', File ''img'')] ''/out'' ''COCO''
   = Inr ([(''/'', Dir), (''/d'', Dir), (''/d/a.jpg'', File ''img''), (''/out'', Dir),
           (''/out/images'', Dir), (''/out/images/train'', Dir), (''/out/annotations'', Dir),
           (''/out/images/train/a.jpg'', File ''img''),
           (''/out/annotations/train.json'', File ''[]'')], 1, ''/out'')"
  by code_simp

theorem export_all_other_format_is_json_witness:
  "''COCO'' \<noteq> ''YOLO (.txt)''
   \<and> export_all (\<lambda>content. Some (100, 200)) (\<lambda>items. ''[]'')
     \<lparr>root = ''/d'', mode = ''images'', split = ''train'', images = [''/d/a.jpg'']\<rparr>
     [(''/'', Dir), (''/d'', Dir), (''/d/a.jpg'', File ''img'')] ''/out'' ''COCO''
   = export_all (\<lambda>content. Some (100, 200)) (\<lambda>items. ''[]'')
     \<lparr>root = ''/d'', mode = ''images'', split = ''train'', images = [''/d/a.jpg'']\<rparr>
     [(''/'', Dir), (''/d'', Dir), (''/d/a.jpg'', File ''img'')] ''/out'' ''JSON''"
  using export_all_other_format_is_json [of "''COCO''" "\<lambda>content. Some (100, 200)" "\<lambda>items. ''[]''"
     "\<lparr>root = ''/d'', mode = ''images'', split = ''train'', images = [''/d/a.jpg'']\<rparr>"
     "[(''/'', Dir), (''/d'', Dir), (''/d/a.jpg'', File ''img'')]" "''/out''"]
  by simp

subsection \<open>Path computations\<close>

lemma basename_no_slash: "CHR ''/'' \<notin> set (basename p)"
  by (auto simp: basename_def dest: set_takeWhileD)

lemma path_head_join:
  "CHR ''/'' \<notin> set f \<Longrightarrow> path_head (d @ CHR ''/'' # f) = d @ ''/''"
  by (simp add: path_head_def dropWhile_append)

lemma basename_join:
  "CHR ''/'' \<notin> set f \<Longrightarrow> basename (d @ CHR ''/'' # f) = f"
  by (simp add: basename_def takeWhile_append)

lemma rstrip_slash_snoc:
  "d \<noteq> [] \<Longrightarrow> last d \<noteq> CHR ''/'' \<Longrightarrow> py_rstrip_slash (d @ ''/'') = d"
  by (cases d rule: rev_cases) (simp_all add: py_rstrip_slash_def)

lemma dirname_join:
  assumes "CHR ''/'' \<notin> set f" "d \<noteq> []" "last d \<noteq> CHR ''/''"
  shows "dirname (d @ CHR ''/'' # f) = d"
proof -
  have ne: "d @ ''/'' \<noteq> replicate (length (d @ ''/'')) (CHR ''/'')"
  proof
    assume "d @ ''/'' = replicate (length (d @ ''/'')) (CHR ''/'')"
    then have "set (d @ ''/'') \<subseteq> {CHR ''/''}" by (metis set_replicate_conv_if empty_subsetI subset_refl)
    moreover from assms(2) have "last d \<in> set d" by simp
    ultimately show False using assms(3) by auto
  qed
  have h: "path_head (d @ CHR ''/'' # f) = d @ ''/''"
    using assms(1) by (rule path_head_join)
  show ?thesis
    unfolding dirname_def h Let_def using ne rstrip_slash_snoc [OF assms(2,3)] by simp
qed

lemma prefix_same_cases_not:
  "prefix p (r @ a) \<Longrightarrow> prefix (r @ b) p \<Longrightarrow> prefix b a"
  using prefix_order.trans same_prefix_prefix by blast

subsection \<open>Moving a file\<close>

lemma prefix_real_dst: "prefix dst (real_dst fs src dst)"
proof -
  have "basename src \<noteq> [] \<Longrightarrow> hd (basename src) \<noteq> CHR ''/''"
    by (metis basename_no_slash hd_in_set)
  then show ?thesis by (auto simp: real_dst_def path_join_def)
qed

lemma move_Inr_D:
  assumes "move fs src dst = Inr fs'"
  shows "\<exists>c. map_of fs src = Some (File c)
           \<and> fs' = AList.update (real_dst fs src dst) (File c) (AList.delete src fs)
           \<and> \<not> isdir fs (real_dst fs src dst)"
  using assms
  by (auto simp: move_def real_dst_def isdir_def path_exists_def
      split: if_splits option.splits node.splits)

lemma move_map_of:
  assumes "move fs src dst = Inr fs'"
  shows "map_of fs' p = (if p = real_dst fs src dst then map_of fs src
                         else if p = src then None else map_of fs p)"
proof -
  from move_Inr_D [OF assms] obtain c where
    "map_of fs src = Some (File c)"
    "fs' = AList.update (real_dst fs src dst) (File c) (AList.delete src fs)" by blast
  then show ?thesis by (simp add: update_conv' delete_conv')
qed

lemma move_isdir:
  assumes "move fs src dst = Inr fs'"
  shows "isdir fs' p = isdir fs p"
proof -
  from move_Inr_D [OF assms] obtain c where c: "map_of fs src = Some (File c)"
    "\<not> isdir fs (real_dst fs src dst)" by blast
  then show ?thesis
    using move_map_of [OF assms, of p] by (auto simp: isdir_def)
qed

lemma move_distinct:
  assumes "move fs src dst = Inr fs'" "distinct (map fst fs)"
  shows "distinct (map fst fs')"
proof -
  from move_Inr_D [OF assms(1)] obtain c where
    "fs' = AList.update (real_dst fs src dst) (File c) (AList.delete src fs)" by blast
  then show ?thesis using assms(2) by (simp add: distinct_update distinct_delete)
qed

lemma move_error:
  "move fs src dst = Inl e \<Longrightarrow> e \<in> {ShutilError, FileNotFoundError, NotADirectoryError}"
  by (auto simp: move_def parent_error_def split: if_splits option.splits node.splits)

lemma move_onto:
  assumes "\<not> isdir fs dst" "parent_error fs dst = None" "map_of fs src = Some (File c)"
  shows "move fs src dst = Inr (AList.update dst (File c) (AList.delete src fs))"
  using assms by (simp add: move_def real_dst_def)

lemma move_labels_none:
  "list_all (\<lambda>ext. \<not> isfile fs (sd @ ''/'' @ b @ ext)) exts \<Longrightarrow> move_labels fs sd dd b exts = Inr fs"
  by (induction exts) auto

lemma move_labels_isdir:
  "move_labels fs sd dd b exts = Inr fs' \<Longrightarrow> isdir fs' p = isdir fs p"
proof (induction exts arbitrary: fs)
  case Nil
  then show ?case by simp
next
  case (Cons ext exts)
  show ?case
  proof (cases "isfile fs (sd @ ''/'' @ b @ ext)")
    case False
    with Cons show ?thesis by simp
  next
    case True
    with Cons.prems obtain f1 where f1: "move fs (sd @ ''/'' @ b @ ext) (dd @ ''/'' @ b @ ext) = Inr f1"
      "move_labels f1 sd dd b exts = Inr fs'"
      by (auto simp: bindE_Inr_iff)
    from Cons.IH [OF f1(2)] move_isdir [OF f1(1)] show ?thesis by simp
  qed
qed

lemma move_labels_distinct:
  "move_labels fs sd dd b exts = Inr fs' \<Longrightarrow> distinct (map fst fs) \<Longrightarrow> distinct (map fst fs')"
proof (induction exts arbitrary: fs)
  case Nil
  then show ?case by simp
next
  case (Cons ext exts)
  show ?case
  proof (cases "isfile fs (sd @ ''/'' @ b @ ext)")
    case False
    with Cons show ?thesis by simp
  next
    case True
    with Cons.prems obtain f1 where f1: "move fs (sd @ ''/'' @ b @ ext) (dd @ ''/'' @ b @ ext) = Inr f1"
      "move_labels f1 sd dd b exts = Inr fs'"
      by (auto simp: bindE_Inr_iff)
    from Cons.IH [OF f1(2)] move_distinct [OF f1(1) Cons.prems(2)] show ?thesis by simp
  qed
qed

lemma move_labels_error:
  "move_labels fs sd dd b exts = Inl e \<Longrightarrow> e \<in> {ShutilError, FileNotFoundError, NotADirectoryError}"
proof (induction exts arbitrary: fs)
  case Nil
  then show ?case by simp
next
  case (Cons ext exts)
  show ?case
  proof (cases "isfile fs (sd @ ''/'' @ b @ ext)")
    case False
    with Cons show ?thesis by simp
  next
    case True
    show ?thesis
    proof (cases "move fs (sd @ ''/'' @ b @ ext) (dd @ ''/'' @ b @ ext)")
      case (Inl e')
      with True Cons.prems have "e = e'" by simp
      with Inl show ?thesis using move_error by blast
    next
      case (Inr f1)
      with True Cons.prems have "move_labels f1 sd dd b exts = Inl e" by simp
      then show ?thesis by (rule Cons.IH)
    qed
  qed
qed

text \<open>A path that no label move reads or writes keeps its node.\<close>

lemma move_labels_frame:
  "move_labels fs sd dd b exts = Inr fs' \<Longrightarrow>
   \<not> prefix (sd @ ''/'') p \<Longrightarrow> \<not> prefix (dd @ ''/'') p \<Longrightarrow> map_of fs' p = map_of fs p"
proof (induction exts arbitrary: fs)
  case Nil
  then show ?case by simp
next
  case (Cons ext exts)
  show ?case
  proof (cases "isfile fs (sd @ ''/'' @ b @ ext)")
    case False
    with Cons show ?thesis by simp
  next
    case True
    with Cons.prems obtain f1 where f1: "move fs (sd @ ''/'' @ b @ ext) (dd @ ''/'' @ b @ ext) = Inr f1"
      "move_labels f1 sd dd b exts = Inr fs'"
      by (auto simp: bindE_Inr_iff)
    have "prefix (dd @ ''/'') (dd @ ''/'' @ b @ ext)" by simp
    then have "prefix (dd @ ''/'') (real_dst fs (sd @ ''/'' @ b @ ext) (dd @ ''/'' @ b @ ext))"
      using prefix_real_dst prefix_order.trans by blast
    with Cons.prems(3) have 1: "p \<noteq> real_dst fs (sd @ ''/'' @ b @ ext) (dd @ ''/'' @ b @ ext)"
      by auto
    have 2: "p \<noteq> sd @ ''/'' @ b @ ext"
      using Cons.prems(2) by auto
    from move_map_of [OF f1(1), of p] 1 2 have "map_of f1 p = map_of fs p" by simp
    with Cons.IH [OF f1(2) Cons.prems(2,3)] show ?thesis by simp
  qed
qed

subsection \<open>The stages of \<open>remove_image\<close>\<close>

lemma remove_image_Inr_D:
  assumes "remove_image st fs p sp = Inr (st', fs', imgs, f)"
  shows "root st \<noteq> [] \<and> isfile fs (norm_path p) \<and> f = basename (norm_path p)
       \<and> st' = refresh_images st fs' sp \<and> imgs = images st'
       \<and> (\<exists>fs1 fs2 fs3.
            makedirs fs (root st @ ''/removed/'' @ sp @ ''/images'') = Inr fs1
          \<and> makedirs fs1 (root st @ ''/removed/'' @ sp @ ''/labels'') = Inr fs2
          \<and> move fs2 (norm_path p)
               (root st @ ''/removed/'' @ sp @ ''/images'' @ ''/'' @ basename (norm_path p)) = Inr fs3
          \<and> move_labels fs3 (root st @ ''/labels/'' @ sp) (root st @ ''/removed/'' @ sp @ ''/labels'')
               (fst (splitext (basename (norm_path p)))) [''.txt'', ''.json''] = Inr fs')"
  using assms
  by (auto simp: remove_image_def Let_def bindE_Inr_iff split: if_splits)

lemma remove_image_isdir:
  assumes "remove_image st fs p sp = Inr (st', fs', imgs, f)"
    "\<not> prefix q (root st @ ''/removed/'' @ sp @ ''/images'')"
    "\<not> prefix q (root st @ ''/removed/'' @ sp @ ''/labels'')"
  shows "isdir fs' q = isdir fs q"
proof -
  from remove_image_Inr_D [OF assms(1)] obtain fs1 fs2 fs3 where s:
    "makedirs fs (root st @ ''/removed/'' @ sp @ ''/images'') = Inr fs1"
    "makedirs fs1 (root st @ ''/removed/'' @ sp @ ''/labels'') = Inr fs2"
    "move fs2 (norm_path p)
       (root st @ ''/removed/'' @ sp @ ''/images'' @ ''/'' @ basename (norm_path p)) = Inr fs3"
    "move_labels fs3 (root st @ ''/labels/'' @ sp) (root st @ ''/removed/'' @ sp @ ''/labels'')
       (fst (splitext (basename (norm_path p)))) [''.txt'', ''.json''] = Inr fs'"
    by blast
  have "isdir fs1 q = isdir fs q"
    using makedirs_frame [OF s(1) assms(2)] by (simp add: isdir_def)
  moreover have "isdir fs2 q = isdir fs1 q"
    using makedirs_frame [OF s(2) assms(3)] by (simp add: isdir_def)
  moreover have "isdir fs3 q = isdir fs2 q" by (rule move_isdir [OF s(3)])
  moreover have "isdir fs' q = isdir fs3 q" by (rule move_labels_isdir [OF s(4)])
  ultimately show ?thesis by simp
qed

section \<open>Removing an image\<close>

lemma remove_image_no_404_when_file:
  assumes "root st \<noteq> []" "isfile fs (norm_path p)"
  shows "remove_image st fs p sp \<noteq> Inl (HTTPException c d)"
proof
  assume a: "remove_image st fs p sp = Inl (HTTPException c d)"
  let ?rid = "root st @ ''/removed/'' @ sp @ ''/images''"
  let ?rld = "root st @ ''/removed/'' @ sp @ ''/labels''"
  let ?img = "norm_path p"
  show False
  proof (cases "makedirs fs ?rid")
    case (Inl e)
    with a assms have "e = HTTPException c d" by (simp add: remove_image_def Let_def)
    with makedirs_error [OF Inl] show False by simp
  next
    case fs1: (Inr fs1)
    show False
    proof (cases "makedirs fs1 ?rld")
      case (Inl e)
      with a assms fs1 have "e = HTTPException c d" by (simp add: remove_image_def Let_def)
      with makedirs_error [OF Inl] show False by simp
    next
      case fs2: (Inr fs2)
      show False
      proof (cases "move fs2 ?img (?rid @ ''/'' @ basename ?img)")
        case (Inl e)
        with a assms fs1 fs2 have "e = HTTPException c d" by (simp add: remove_image_def Let_def)
        with move_error [OF Inl] show False by simp
      next
        case fs3: (Inr fs3)
        show False
        proof (cases "move_labels fs3 (root st @ ''/labels/'' @ sp) ?rld
                        (fst (splitext (basename ?img))) [''.txt'', ''.json'']")
          case (Inl e)
          with a assms fs1 fs2 fs3 have "e = HTTPException c d"
            by (simp add: remove_image_def Let_def)
          with move_labels_error [OF Inl] show False by simp
        next
          case (Inr fs4)
          with a assms fs1 fs2 fs3 show False by (simp add: remove_image_def Let_def)
        qed
      qed
    qed
  qed
qed

lemma remove_image_without_labels:
  assumes root: "root st \<noteq> []"
    and img: "map_of fs (norm_path p) = Some (File c)"
    and ntxt: "\<not> isfile fs (root st @ ''/labels/'' @ sp @ ''/'' @ fst (splitext (basename (norm_path p))) @ ''.txt'')"
    and njson: "\<not> isfile fs (root st @ ''/labels/'' @ sp @ ''/'' @ fst (splitext (basename (norm_path p))) @ ''.json'')"
    and m1: "makedirs fs (root st @ ''/removed/'' @ sp @ ''/images'') = Inr fs1"
    and m2: "makedirs fs1 (root st @ ''/removed/'' @ sp @ ''/labels'') = Inr fs2"
    and dst: "\<not> isdir fs (root st @ ''/removed/'' @ sp @ ''/images/'' @ basename (norm_path p))"
  shows "\<exists>st' fs'. remove_image st fs p sp = Inr (st', fs', images st', basename (norm_path p))
           \<and> map_of fs' (root st @ ''/removed/'' @ sp @ ''/images/'' @ basename (norm_path p))
               = Some (File c)"
proof -
  let ?rid = "root st @ ''/removed/'' @ sp @ ''/images''"
  let ?rld = "root st @ ''/removed/'' @ sp @ ''/labels''"
  let ?img = "norm_path p"
  let ?f = "basename ?img"
  let ?dst = "root st @ ''/removed/'' @ sp @ ''/images/'' @ ?f"
  let ?ld = "root st @ ''/labels/'' @ sp"
  let ?b = "fst (splitext ?f)"
  have nf: "CHR ''/'' \<notin> set ?f" by (rule basename_no_slash)
  have tail: "makedirs_tail ?rid \<noteq> ''.''"
  proof -
    have "basename ((root st @ ''/removed/'' @ sp) @ CHR ''/'' # ''images'') = ''images''"
      by (rule basename_join) simp
    then show ?thesis by (simp add: makedirs_tail_def)
  qed
  have np1: "\<not> prefix ?dst ?rid" by simp
  have np2: "\<not> prefix ?dst ?rld" by simp
  have d2: "\<not> isdir fs2 ?dst"
    using makedirs_frame [OF m1 np1] makedirs_frame [OF m2 np2] dst by (simp add: isdir_def)
  have "isdir fs1 ?rid" by (rule makedirs_isdir [OF m1 tail])
  then have rid2: "isdir fs2 ?rid" using makedirs_preserves [OF m2] by (simp add: isdir_def)
  have dn: "dirname ?dst = ?rid"
    using dirname_join [OF nf, of ?rid] by simp
  have pe: "parent_error fs2 ?dst = None"
    using rid2 unfolding parent_error_def dn by (simp add: isdir_def)
  have img2: "map_of fs2 ?img = Some (File c)"
    using makedirs_preserves [OF m2 makedirs_preserves [OF m1 img]] .
  let ?fs3 = "AList.update ?dst (File c) (AList.delete ?img fs2)"
  have mv: "move fs2 ?img ?dst = Inr ?fs3" by (rule move_onto [OF d2 pe img2])
  have lbl: "\<And>ext. \<not> isfile fs (root st @ ''/labels/'' @ sp @ ''/'' @ ?b @ ext)
                \<Longrightarrow> \<not> isfile ?fs3 (root st @ ''/labels/'' @ sp @ ''/'' @ ?b @ ext)"
  proof -
    fix ext
    assume a: "\<not> isfile fs (root st @ ''/labels/'' @ sp @ ''/'' @ ?b @ ext)"
    have ne: "root st @ ''/labels/'' @ sp @ ''/'' @ ?b @ ext \<noteq> ?dst" by simp
    have "isfile fs2 (root st @ ''/labels/'' @ sp @ ''/'' @ ?b @ ext)
            = isfile fs (root st @ ''/labels/'' @ sp @ ''/'' @ ?b @ ext)"
      using makedirs_isfile [OF m1] makedirs_isfile [OF m2] by simp
    with a ne show "\<not> isfile ?fs3 (root st @ ''/labels/'' @ sp @ ''/'' @ ?b @ ext)"
      by (auto simp: isfile_iff update_conv' delete_conv')
  qed
  have ml: "move_labels ?fs3 ?ld ?rld ?b [''.txt'', ''.json''] = Inr ?fs3"
    using lbl [OF ntxt] lbl [OF njson] by (intro move_labels_none) simp
  have "remove_image st fs p sp
          = Inr (refresh_images st ?fs3 sp, ?fs3, images (refresh_images st ?fs3 sp), ?f)"
    using root img m1 m2 mv ml by (simp add: remove_image_def Let_def isfile_iff)
  moreover have "map_of ?fs3 ?dst = Some (File c)" by (simp add: update_conv')
  ultimately show ?thesis by (intro exI conjI) simp_all
qed

text \<open>
  Claim C7. With a project loaded, \<open>remove_image\<close> fails with status 404 exactly when
  the image is not a regular file. The labels are moved as far as they exist: with
  neither a \<^verbatim>\<open>.txt\<close> nor a \<^verbatim>\<open>.json\<close> label, and the removed area creatable and the
  destination not a directory, \<open>remove_image\<close> succeeds and the image file is at
  \<^verbatim>\<open>removed/<split>/images/<filename>\<close>.
\<close>

theorem remove_image_not_found_iff_image_missing:
  assumes "root st \<noteq> []"
  shows "((\<exists>detail. remove_image st fs image_path sp = Inl (HTTPException 404 detail))
            \<longleftrightarrow> \<not> isfile fs (norm_path image_path))
       \<and> (\<forall>c fs1 fs2.
             map_of fs (norm_path image_path) = Some (File c)
           \<and> \<not> isfile fs (root st @ ''/labels/'' @ sp @ ''/''
                              @ fst (splitext (basename (norm_path image_path))) @ ''.txt'')
           \<and> \<not> isfile fs (root st @ ''/labels/'' @ sp @ ''/''
                              @ fst (splitext (basename (norm_path image_path))) @ ''.json'')
           \<and> makedirs fs (root st @ ''/removed/'' @ sp @ ''/images'') = Inr fs1
           \<and> makedirs fs1 (root st @ ''/removed/'' @ sp @ ''/labels'') = Inr fs2
           \<and> \<not> isdir fs (root st @ ''/removed/'' @ sp @ ''/images/'' @ basename (norm_path image_path))
           \<longrightarrow> (\<exists>st' fs'.
                  remove_image st fs image_path sp
                    = Inr (st', fs', images st', basename (norm_path image_path))
                \<and> map_of fs' (root st @ ''/removed/'' @ sp @ ''/images/''
                                 @ basename (norm_path image_path)) = Some (File c)))"
proof (intro conjI allI impI)
  show "(\<exists>detail. remove_image st fs image_path sp = Inl (HTTPException 404 detail))
          \<longleftrightarrow> \<not> isfile fs (norm_path image_path)"
  proof
    assume "\<exists>detail. remove_image st fs image_path sp = Inl (HTTPException 404 detail)"
    then show "\<not> isfile fs (norm_path image_path)"
      using remove_image_no_404_when_file [OF assms] by blast
  next
    assume "\<not> isfile fs (norm_path image_path)"
    then have "remove_image st fs image_path sp = Inl (HTTPException 404 ''Image not found'')"
      using assms by (simp add: remove_image_def Let_def)
    then show "\<exists>detail. remove_image st fs image_path sp = Inl (HTTPException 404 detail)"
      by blast
  qed
next
  fix c fs1 fs2
  assume "map_of fs (norm_path image_path) = Some (File c)
           \<and> \<not> isfile fs (root st @ ''/labels/'' @ sp @ ''/''
                              @ fst (splitext (basename (norm_path image_path))) @ ''.txt'')
           \<and> \<not> isfile fs (root st @ ''/labels/'' @ sp @ ''/''
                              @ fst (splitext (basename (norm_path image_path))) @ ''.json'')
           \<and> makedirs fs (root st @ ''/removed/'' @ sp @ ''/images'') = Inr fs1
           \<and> makedirs fs1 (root st @ ''/removed/'' @ sp @ ''/labels'') = Inr fs2
           \<and> \<not> isdir fs (root st @ ''/removed/'' @ sp @ ''/images/'' @ basename (norm_path image_path))"
  then show "\<exists>st' fs'.
                  remove_image st fs image_path sp
                    = Inr (st', fs', images st', basename (norm_path image_path))
                \<and> map_of fs' (root st @ ''/removed/'' @ sp @ ''/images/''
                                 @ basename (norm_path image_path)) = Some (File c)"
    using remove_image_without_labels [OF assms, of fs image_path c sp fs1 fs2] by blast
qed

theorem remove_image_not_found_iff_image_missing_witness:
  "(\<exists>detail.
      remove_image \<lparr>root = ''/d'', mode = ''yolo'', split = ''train'', images = [''/d/images/train/a.jpg'']\<rparr>
        [(''/'', Dir), (''/d'', Dir), (''/d/images'', Dir), (''/d/images/train'', Dir),
         (''/d/images/train/a.jpg'', File ''img'')]
        ''/d/images/train/b.jpg'' ''train'' = Inl (HTTPException 404 detail))
   \<and> (\<exists>st' fs'.
        remove_image \<lparr>root = ''/d'', mode = ''yolo'', split = ''train'', images = [''/d/images/train/a.jpg'']\<rparr>
          [(''/'', Dir), (''/d'', Dir), (''/d/images'', Dir), (''/d/images/train'', Dir),
           (''/d/images/train/a.jpg'', File ''img'')]
          ''/d/images/train/a.jpg'' ''train'' = Inr (st', fs', images st', ''a.jpg'')
      \<and> map_of fs' ''/d/removed/train/images/a.jpg'' = Some (File ''img''))"
proof -
  let ?st = "\<lparr>root = ''/d'', mode = ''yolo'', split = ''train'', images = [''/d/images/train/a.jpg'']\<rparr>"
  let ?fs = "[(''/'', Dir), (''/d'', Dir), (''/d/images'', Dir), (''/d/images/train'', Dir),
         (''/d/images/train/a.jpg'', File ''img'')]"
  have r: "root ?st \<noteq> []" by simp
  have b: "\<not> isfile ?fs (norm_path ''/d/images/train/b.jpg'')" by code_simp
  have a: "map_of ?fs (norm_path ''/d/images/train/a.jpg'') = Some (File ''img'')" by code_simp
  have n: "basename (norm_path ''/d/images/train/a.jpg'') = ''a.jpg''" by code_simp
  have t: "\<not> isfile ?fs (''/d'' @ ''/labels/'' @ ''train'' @ ''/'' @ fst (splitext ''a.jpg'') @ ''.txt'')"
    by code_simp
  have j: "\<not> isfile ?fs (''/d'' @ ''/labels/'' @ ''train'' @ ''/'' @ fst (splitext ''a.jpg'') @ ''.json'')"
    by code_simp
  have m1: "makedirs ?fs (''/d'' @ ''/removed/'' @ ''train'' @ ''/images'')
            = Inr (?fs @ [(''/d/removed'', Dir), (''/d/removed/train'', Dir), (''/d/removed/train/images'', Dir)])"
    by code_simp
  have m2: "makedirs (?fs @ [(''/d/removed'', Dir), (''/d/removed/train'', Dir), (''/d/removed/train/images'', Dir)])
              (''/d'' @ ''/removed/'' @ ''train'' @ ''/labels'')
            = Inr (?fs @ [(''/d/removed'', Dir), (''/d/removed/train'', Dir), (''/d/removed/train/images'', Dir),
                          (''/d/removed/train/labels'', Dir)])"
    by code_simp
  have d: "\<not> isdir ?fs (''/d'' @ ''/removed/'' @ ''train'' @ ''/images/'' @ ''a.jpg'')" by code_simp
  from remove_image_not_found_iff_image_missing [OF r, of ?fs "''/d/images/train/b.jpg''" "''train''"] b
  have 1: "\<exists>detail. remove_image ?st ?fs ''/d/images/train/b.jpg'' ''train'' = Inl (HTTPException 404 detail)"
    by blast
  from remove_image_not_found_iff_image_missing [OF r, of ?fs "''/d/images/train/a.jpg''" "''train''"]
    a n t j m1 m2 d
  have 2: "\<exists>st' fs'.
        remove_image ?st ?fs ''/d/images/train/a.jpg'' ''train'' = Inr (st', fs', images st', ''a.jpg'')
      \<and> map_of fs' ''/d/removed/train/images/a.jpg'' = Some (File ''img'')"
    by simp
  from 1 2 show ?thesis by blast
qed

section \<open>Removing an image of a flat project\<close>

text \<open>
  Claim C10. When \<^verbatim>\<open>images/<split>\<close> under the root is not a directory, as in a flat
  project, a successful \<open>remove_image\<close> leaves the state unchanged: the response's
  \<^verbatim>\<open>images\<close> is the cached list as it was, which still holds the path of the removed
  image if it held it before, although the file has moved to the removed area.
\<close>

theorem remove_image_flat_keeps_cached_list:
  assumes "remove_image st fs image_path sp = Inr (st', fs', imgs, removed)"
    and "\<not> isdir fs (root st @ ''/images/'' @ sp)"
  shows "st' = st \<and> imgs = images st \<and> removed = basename (norm_path image_path)
       \<and> isfile fs (norm_path image_path)
       \<and> (norm_path image_path \<in> set (images st) \<longrightarrow> norm_path image_path \<in> set imgs)
       \<and> (\<not> isdir fs (root st @ ''/removed/'' @ sp @ ''/images/'' @ basename (norm_path image_path))
            \<longrightarrow> map_of fs' (root st @ ''/removed/'' @ sp @ ''/images/'' @ basename (norm_path image_path))
                 = map_of fs (norm_path image_path))"
proof -
  let ?img = "norm_path image_path"
  let ?f = "basename ?img"
  let ?rid = "root st @ ''/removed/'' @ sp @ ''/images''"
  let ?rld = "root st @ ''/removed/'' @ sp @ ''/labels''"
  let ?dst = "root st @ ''/removed/'' @ sp @ ''/images/'' @ ?f"
  from remove_image_Inr_D [OF assms(1)] obtain fs1 fs2 fs3 where s:
    "isfile fs ?img" "removed = ?f" "st' = refresh_images st fs' sp" "imgs = images st'"
    "makedirs fs ?rid = Inr fs1" "makedirs fs1 ?rld = Inr fs2"
    "move fs2 ?img (root st @ ''/removed/'' @ sp @ ''/images'' @ ''/'' @ ?f) = Inr fs3"
    "move_labels fs3 (root st @ ''/labels/'' @ sp) ?rld (fst (splitext ?f)) [''.txt'', ''.json''] = Inr fs'"
    by blast
  have "isdir fs' (root st @ ''/images/'' @ sp) = isdir fs (root st @ ''/images/'' @ sp)"
    by (rule remove_image_isdir [OF assms(1)]) simp_all
  with assms(2) have same: "st' = st" using s(3) by (simp add: refresh_images_def)
  have moved: "map_of fs' ?dst = map_of fs ?img" if nd: "\<not> isdir fs ?dst"
  proof -
    have "\<not> prefix ?dst ?rid" "\<not> prefix ?dst ?rld" by simp_all
    then have d2: "\<not> isdir fs2 ?dst"
      using makedirs_frame [OF s(5)] makedirs_frame [OF s(6)] nd by (simp add: isdir_def)
    from s(1) obtain c where c: "map_of fs ?img = Some (File c)" by (auto simp: isfile_iff)
    have c2: "map_of fs2 ?img = Some (File c)"
      using makedirs_preserves [OF s(6) makedirs_preserves [OF s(5) c]] .
    have "map_of fs3 ?dst = map_of fs2 ?img"
      using move_map_of [OF s(7), of ?dst] d2 by (simp add: real_dst_def)
    moreover have "map_of fs' ?dst = map_of fs3 ?dst"
      by (rule move_labels_frame [OF s(8)]) simp_all
    ultimately show ?thesis using c c2 by simp
  qed
  from same s moved show ?thesis by simp
qed

theorem remove_image_flat_keeps_cached_list_witness:
  "remove_image \<lparr>root = ''/d'', mode = ''images'', split = ''train'', images = [''/d/a.jpg'', ''/d/b.jpg'']\<rparr>
     [(''/'', Dir), (''/d'', Dir), (''/d/a.jpg'', File ''A''), (''/d/b.jpg'', File ''B''),
      (''/d/labels'', Dir), (''/d/labels/train'', Dir)]
     ''/d/a.jpg'' ''train''
   = Inr (\<lparr>root = ''/d'', mode = ''images'', split = ''train'', images = [''/d/a.jpg'', ''/d/b.jpg'']\<rparr>,
          [(''/'', Dir), (''/d'', Dir), (''/d/b.jpg'', File ''B''),
           (''/d/labels'', Dir), (''/d/labels/train'', Dir), (''/d/removed'', Dir),
           (''/d/removed/train'', Dir), (''/d/removed/train/images'', Dir),
           (''/d/removed/train/labels'', Dir), (''/d/removed/train/images/a.jpg'', File ''A'')],
          [''/d/a.jpg'', ''/d/b.jpg''], ''a.jpg'')
   \<and> ''/d/a.jpg'' \<in> set [''/d/a.jpg'', ''/d/b.jpg'']"
proof -
  let ?st = "\<lparr>root = ''/d'', mode = ''images'', split = ''train'', images = [''/d/a.jpg'', ''/d/b.jpg'']\<rparr>"
  let ?fs = "[(''/'', Dir), (''/d'', Dir), (''/d/a.jpg'', File ''A''), (''/d/b.jpg'', File ''B''),
      (''/d/labels'', Dir), (''/d/labels/train'', Dir)]"
  let ?fs' = "[(''/'', Dir), (''/d'', Dir), (''/d/b.jpg'', File ''B''),
           (''/d/labels'', Dir), (''/d/labels/train'', Dir), (''/d/removed'', Dir),
           (''/d/removed/train'', Dir), (''/d/removed/train/images'', Dir),
           (''/d/removed/train/labels'', Dir), (''/d/removed/train/images/a.jpg'', File ''A'')]"
  have r: "remove_image ?st ?fs ''/d/a.jpg'' ''train'' = Inr (?st, ?fs', [''/d/a.jpg'', ''/d/b.jpg''], ''a.jpg'')"
    by code_simp
  have d: "\<not> isdir ?fs (root ?st @ ''/images/'' @ ''train'')" by code_simp
  from remove_image_flat_keeps_cached_list [OF r d] r show ?thesis by simp
qed

section \<open>Saving an empty list of rectangles\<close>

lemma wf_fs_parent:
  assumes "wf_fs fs" "map_of fs p = Some v"
  shows "dirname p = [] \<or> isdir fs (dirname p)"
proof -
  from assms(2) have "(p, v) \<in> set fs" by (rule map_of_SomeD)
  with assms(1) have "parent_error fs p = None"
    by (auto simp: wf_fs_def list_all_iff)
  then show ?thesis
    by (auto simp: parent_error_def isdir_def split: if_splits option.splits node.splits)
qed

lemma dirname_Nil [simp]: "dirname [] = []"
  by (simp add: dirname_def path_head_def)

lemma makedirs_existing:
  assumes "wf_fs fs" "isdir fs n"
  shows "makedirs fs n = Inr fs"
proof -
  have n: "map_of fs n = Some Dir" using assms(2) by (simp add: isdir_def)
  have "\<not> (makedirs_head n \<noteq> [] \<and> makedirs_tail n \<noteq> [] \<and> \<not> path_exists fs (makedirs_head n))"
  proof (cases "basename n = []")
    case False
    then show ?thesis
      using wf_fs_parent [OF assms(1) n]
      by (auto simp: makedirs_head_def isdir_def path_exists_def)
  next
    case True
    show ?thesis
    proof (cases "dirname n = []")
      case dn: True
      with True show ?thesis by (simp add: makedirs_head_def)
    next
      case False
      with wf_fs_parent [OF assms(1) n] have "map_of fs (dirname n) = Some Dir"
        by (simp add: isdir_def)
      from wf_fs_parent [OF assms(1) this] True show ?thesis
        by (auto simp: makedirs_head_def isdir_def path_exists_def)
    qed
  qed
  then have "makedirs fs n = mkdir_exist_ok fs n"
    by (subst makedirs.simps) auto
  also have "\<dots> = Inr fs"
    using assms(2) by (auto simp: mkdir_exist_ok_def mkdir_def isdir_def path_exists_def)
  finally show ?thesis .
qed

text \<open>
  On a well-formed file system, \<open>save_yolo_labels\<close> with an empty list deletes a label
  file whose path has a directory part, and the path does not exist afterwards.
  Whatever the path, a call that returns leaves no file at the path and creates no
  file. When the path does not exist and its directory does, nothing changes.
\<close>

theorem save_yolo_labels_empty_deletes:
  assumes "wf_fs fs"
  shows "(isfile fs label_path \<and> dirname label_path \<noteq> [] \<longrightarrow>
            save_yolo_labels fs label_path [] w h = Inr (AList.delete label_path fs)
          \<and> \<not> path_exists (AList.delete label_path fs) label_path)
       \<and> (\<forall>fs'. save_yolo_labels fs label_path [] w h = Inr fs' \<longrightarrow>
              \<not> isfile fs' label_path \<and> (\<forall>q. isfile fs' q \<longrightarrow> isfile fs q))
       \<and> (\<not> path_exists fs label_path \<and> isdir fs (dirname label_path) \<longrightarrow>
            save_yolo_labels fs label_path [] w h = Inr fs)"
proof -
  have 1: "save_yolo_labels fs label_path [] w h = Inr (AList.delete label_path fs)"
    if a: "isfile fs label_path \<and> dirname label_path \<noteq> []"
  proof -
    from a obtain c where c: "map_of fs label_path = Some (File c)" by (auto simp: isfile_iff)
    from wf_fs_parent [OF assms c] a have "isdir fs (dirname label_path)" by simp
    then have "makedirs fs (dirname label_path) = Inr fs" by (rule makedirs_existing [OF assms])
    then show ?thesis
      using c by (simp add: save_yolo_labels_def path_exists_def os_remove_def)
  qed
  have 2: "\<not> path_exists (AList.delete label_path fs) label_path"
    by (simp add: path_exists_def delete_conv')
  have 3: "\<not> isfile fs' label_path \<and> (\<forall>q. isfile fs' q \<longrightarrow> isfile fs q)"
    if r: "save_yolo_labels fs label_path [] w h = Inr fs'" for fs'
  proof -
    from r obtain fs1 where fs1: "makedirs fs (dirname label_path) = Inr fs1"
      and rest: "(if path_exists fs1 label_path then os_remove fs1 label_path else Inr fs1) = Inr fs'"
      by (auto simp: save_yolo_labels_def bindE_Inr_iff)
    have fs': "fs' = fs1 \<and> map_of fs1 label_path = None \<or> fs' = AList.delete label_path fs1"
      using rest
      by (auto simp: os_remove_def path_exists_def split: if_splits option.splits node.splits)
    then have "\<not> isfile fs' label_path"
      by (auto simp: isfile_iff delete_conv')
    moreover have "isfile fs q" if "isfile fs' q" for q
    proof -
      from that fs' have "isfile fs1 q" by (auto simp: isfile_iff delete_conv' split: if_splits)
      then show ?thesis using makedirs_isfile [OF fs1] by simp
    qed
    ultimately show ?thesis by blast
  qed
  have 4: "save_yolo_labels fs label_path [] w h = Inr fs"
    if a: "\<not> path_exists fs label_path \<and> isdir fs (dirname label_path)"
  proof -
    from a have "makedirs fs (dirname label_path) = Inr fs" by (simp add: makedirs_existing [OF assms])
    then show ?thesis using a by (simp add: save_yolo_labels_def)
  qed
  from 1 2 3 4 show ?thesis by blast
qed

theorem save_yolo_labels_empty_deletes_witness:
  "wf_fs [(''/'', Dir), (''/d'', Dir), (''/d/labels'', Dir), (''/d/labels/train'', Dir),
          (''/d/labels/train/a.txt'', File ''0 0.500000 0.500000 0.200000 0.400000\<newline>'')]
   \<and> isfile [(''/'', Dir), (''/d'', Dir), (''/d/labels'', Dir), (''/d/labels/train'', Dir),
          (''/d/labels/train/a.txt'', File ''0 0.500000 0.500000 0.200000 0.400000\<newline>'')]
        ''/d/labels/train/a.txt''
   \<and> save_yolo_labels [(''/'', Dir), (''/d'', Dir), (''/d/labels'', Dir), (''/d/labels/train'', Dir),
          (''/d/labels/train/a.txt'', File ''0 0.500000 0.500000 0.200000 0.400000\<newline>'')]
        ''/d/labels/train/a.txt'' [] 100 200
       = Inr [(''/'', Dir), (''/d'', Dir), (''/d/labels'', Dir), (''/d/labels/train'', Dir)]
   \<and> save_yolo_labels [(''/'', Dir), (''/d'', Dir), (''/d/labels'', Dir), (''/d/labels/train'', Dir)]
        ''/d/labels/train/a.txt'' [] 100 200
       = Inr [(''/'', Dir), (''/d'', Dir), (''/d/labels'', Dir), (''/d/labels/train'', Dir)]"
proof -
  let ?dirs = "[(''/'', Dir), (''/d'', Dir), (''/d/labels'', Dir), (''/d/labels/train'', Dir)]"
  let ?fs = "?dirs @ [(''/d/labels/train/a.txt'', File ''0 0.500000 0.500000 0.200000 0.400000\<newline>'')]"
  have w: "wf_fs ?fs" by code_simp
  have w0: "wf_fs ?dirs" by code_simp
  have f: "isfile ?fs ''/d/labels/train/a.txt''" by code_simp
  have d: "dirname ''/d/labels/train/a.txt'' \<noteq> []" by code_simp
  have del: "AList.delete ''/d/labels/train/a.txt'' ?fs = ?dirs" by (simp add: AList.delete_eq)
  have n0: "\<not> path_exists ?dirs ''/d/labels/train/a.txt''" by code_simp
  have d0: "isdir ?dirs (dirname ''/d/labels/train/a.txt'')" by code_simp
  have "save_yolo_labels ?fs ''/d/labels/train/a.txt'' [] 100 200
          = Inr (AList.delete ''/d/labels/train/a.txt'' ?fs)"
    using save_yolo_labels_empty_deletes [OF w, of "''/d/labels/train/a.txt''" 100 200, THEN conjunct1]
      f d by blast
  then have 1: "save_yolo_labels ?fs ''/d/labels/train/a.txt'' [] 100 200 = Inr ?dirs"
    by (simp only: del)
  have 2: "save_yolo_labels ?dirs ''/d/labels/train/a.txt'' [] 100 200 = Inr ?dirs"
    using save_yolo_labels_empty_deletes [OF w0, of "''/d/labels/train/a.txt''" 100 200,
        THEN conjunct2, THEN conjunct2]
      n0 d0 by blast
  have e: "?fs = [(''/'', Dir), (''/d'', Dir), (''/d/labels'', Dir), (''/d/labels/train'', Dir),
          (''/d/labels/train/a.txt'', File ''0 0.500000 0.500000 0.200000 0.400000\<newline>'')]"
    by simp
  from w f 1 2 show ?thesis unfolding e by blast
qed


section \<open>The active split on opening a project\<close>

lemma dirs_of_append: "dirs_of (a @ b) = dirs_of a @ dirs_of b"
  by (simp add: dirs_of_def)

lemma ensure_labels_loop_shape:
  "ensure_labels_loop fs r ss = Inr fs' \<Longrightarrow>
   \<exists>ks. fs' = fs @ dirs_of ks \<and> (\<forall>k\<in>set ks. \<exists>s. prefix k (r @ ''/labels/'' @ s))"
proof (induction ss arbitrary: fs)
  case Nil
  then have "fs' = fs @ dirs_of []" by (simp add: dirs_of_def)
  then show ?case by fastforce
next
  case (Cons s ss)
  show ?case
  proof (cases "isdir fs (r @ ''/images/'' @ s)")
    case False
    with Cons show ?thesis by simp
  next
    case True
    with Cons.prems obtain f1 where f1: "makedirs fs (r @ ''/labels/'' @ s) = Inr f1"
      "ensure_labels_loop f1 r ss = Inr fs'"
      by (auto simp: bindE_Inr_iff)
    from makedirs_shape [OF f1(1)] obtain k1 where k1: "f1 = fs @ dirs_of k1"
      "\<forall>k\<in>set k1. prefix k (r @ ''/labels/'' @ s) \<and> map_of fs k = None" by blast
    from Cons.IH [OF f1(2)] obtain k2 where k2: "fs' = f1 @ dirs_of k2"
      "\<forall>k\<in>set k2. \<exists>s. prefix k (r @ ''/labels/'' @ s)" by blast
    have "fs' = fs @ dirs_of (k1 @ k2)" using k1(1) k2(1) by (simp add: dirs_of_append)
    moreover have "\<forall>k\<in>set (k1 @ k2). \<exists>s. prefix k (r @ ''/labels/'' @ s)"
      using k1(2) k2(2) by auto
    ultimately show ?thesis by blast
  qed
qed

lemma not_under_images:
  assumes "prefix k (r @ ''/labels/'' @ s)"
  shows "child_name (r @ ''/images/'' @ s') k = None" and "k \<noteq> r @ ''/images/'' @ s'"
proof -
  have 1: "\<not> prefix (r @ ''/images/'') k"
  proof
    assume "prefix (r @ ''/images/'') k"
    from this assms have "prefix (r @ ''/images/'') (r @ ''/labels/'' @ s)"
      by (rule prefix_order.trans)
    then show False by simp
  qed
  have "prefix (r @ ''/images/'') ((r @ ''/images/'' @ s') @ ''/'')" by simp
  then have "\<not> prefix ((r @ ''/images/'' @ s') @ ''/'') k"
    using 1 prefix_order.trans by blast
  then show "child_name (r @ ''/images/'' @ s') k = None"
    by (simp add: child_name_def)
  show "k \<noteq> r @ ''/images/'' @ s'"
    using 1 by auto
qed

lemma listdir_names_append_dirs:
  assumes "\<forall>k\<in>set ks. child_name d k = None"
  shows "listdir_names (fs @ dirs_of ks) d = listdir_names fs d"
proof -
  have "List.map_filter (child_name d) ks = []"
    using assms by (induction ks) (auto simp: List.map_filter_def)
  then show ?thesis
    by (simp add: listdir_names_def dirs_of_def List.map_filter_def comp_def)
qed

lemma ensure_labels_images:
  assumes "ensure_labels fs r = Inr fs'"
  shows "isdir fs' (r @ ''/images/'' @ s) = isdir fs (r @ ''/images/'' @ s)"
    and "list_images fs' (r @ ''/images/'' @ s) = list_images fs (r @ ''/images/'' @ s)"
proof -
  from assms obtain ks where ks: "fs' = fs @ dirs_of ks"
    "\<forall>k\<in>set ks. \<exists>s. prefix k (r @ ''/labels/'' @ s)"
    using ensure_labels_loop_shape unfolding ensure_labels_def by blast
  have a: "\<forall>k\<in>set ks. child_name (r @ ''/images/'' @ s) k = None"
    using ks(2) not_under_images(1) by blast
  have b: "r @ ''/images/'' @ s \<notin> set ks"
    using ks(2) not_under_images(2) by blast
  show d: "isdir fs' (r @ ''/images/'' @ s) = isdir fs (r @ ''/images/'' @ s)"
    using b unfolding ks(1) isdir_def map_of_append_dirs by (simp split: option.splits)
  have "listdir_names fs' (r @ ''/images/'' @ s) = listdir_names fs (r @ ''/images/'' @ s)"
    unfolding ks(1) using a by (rule listdir_names_append_dirs)
  with d show "list_images fs' (r @ ''/images/'' @ s) = list_images fs (r @ ''/images/'' @ s)"
    by (simp add: list_images_def glob_star_dot_star_def)
qed

lemma split_files_ensure_labels:
  assumes "ensure_labels fs r = Inr fs'"
  shows "split_files fs' r = split_files fs r"
  using ensure_labels_images [OF assms] by (simp add: split_files_def)

lemma select_split_spec:
  "select_split (split_files fs r)
     = spec_active_split (\<lambda>s. isdir fs (r @ ''/images/'' @ s))
         (\<lambda>s. list_images fs (r @ ''/images/'' @ s) \<noteq> [])"
  by (auto simp: select_split_def split_files_def split_names_def spec_active_split_def)

lemma map_of_split_files:
  "map_of (split_files fs r) s =
     (if s \<in> set split_names \<and> isdir fs (r @ ''/images/'' @ s)
      then Some (list_images fs (r @ ''/images/'' @ s)) else None)"
  by (auto simp: split_files_def split_names_def)

lemma spec_active_split_in_names:
  "spec_active_split present non_empty \<in> set split_names"
  by (simp add: spec_active_split_def split_names_def)

text \<open>
  Claim C8. Opening a project whose root has an \<^verbatim>\<open>images\<close> directory selects the split
  as the specification says, from the splits present and those with images, and caches
  the sorted image list of that split, the empty list when the split is not present.
\<close>

theorem open_project_selects_active_split:
  assumes "isdir fs (norm_path req_path)"
    and "rootp = choose_root cwd fs (norm_path req_path) req_mode"
    and "isdir fs (rootp @ ''/images'')"
    and "ensure_labels fs rootp = Inr fs1"
    and "sp = spec_active_split (\<lambda>s. isdir fs (rootp @ ''/images/'' @ s))
                (\<lambda>s. list_images fs (rootp @ ''/images/'' @ s) \<noteq> [])"
  shows "open_project cwd st fs req_path req_mode
           = Inr (\<lparr>root = rootp, mode = req_mode, split = sp,
                    images = (if isdir fs (rootp @ ''/images/'' @ sp)
                              then list_images fs (rootp @ ''/images/'' @ sp) else [])\<rparr>, fs1)
       \<and> sorted (list_images fs (rootp @ ''/images/'' @ sp))"
proof -
  have sf: "split_files fs1 rootp = split_files fs rootp"
    by (rule split_files_ensure_labels [OF assms(4)])
  have sel: "select_split (split_files fs rootp) = sp"
    unfolding assms(5) by (rule select_split_spec)
  have "sp \<in> set split_names"
    unfolding assms(5) by (rule spec_active_split_in_names)
  then have img: "(case map_of (split_files fs rootp) sp of Some files \<Rightarrow> files | None \<Rightarrow> [])
      = (if isdir fs (rootp @ ''/images/'' @ sp) then list_images fs (rootp @ ''/images/'' @ sp) else [])"
    by (simp add: map_of_split_files)
  have "open_project cwd st fs req_path req_mode
           = Inr (\<lparr>root = rootp, mode = req_mode, split = sp,
                    images = (if isdir fs (rootp @ ''/images/'' @ sp)
                              then list_images fs (rootp @ ''/images/'' @ sp) else [])\<rparr>, fs1)"
    using assms(1,3,4) unfolding open_project_def Let_def assms(2) [symmetric]
    by (simp add: sf sel img)
  moreover have "sorted (list_images fs (rootp @ ''/images/'' @ sp))"
    by (simp add: list_images_def)
  ultimately show ?thesis by blast
qed

theorem open_project_selects_active_split_witness:
  "open_project ''/'' \<lparr>root = [], mode = ''images'', split = ''train'', images = []\<rparr>
     [(''/'', Dir), (''/d'', Dir), (''/d/images'', Dir), (''/d/images/train'', Dir),
      (''/d/images/val'', Dir), (''/d/images/val/b.png'', File ''B''),
      (''/d/images/val/a.JPG'', File ''A''), (''/d/images/val/notes.txt'', File ''n'')]
     ''/d'' ''yolo''
   = Inr (\<lparr>root = ''/d'', mode = ''yolo'', split = ''val'',
            images = [''/d/images/val/a.JPG'', ''/d/images/val/b.png'']\<rparr>,
          [(''/'', Dir), (''/d'', Dir), (''/d/images'', Dir), (''/d/images/train'', Dir),
           (''/d/images/val'', Dir), (''/d/images/val/b.png'', File ''B''),
           (''/d/images/val/a.JPG'', File ''A''), (''/d/images/val/notes.txt'', File ''n''),
           (''/d/labels'', Dir), (''/d/labels/train'', Dir), (''/d/labels/val'', Dir)])"
proof -
  let ?st = "\<lparr>root = [], mode = ''images'', split = ''train'', images = []\<rparr>"
  let ?fs = "[(''/'', Dir), (''/d'', Dir), (''/d/images'', Dir), (''/d/images/train'', Dir),
      (''/d/images/val'', Dir), (''/d/images/val/b.png'', File ''B''),
      (''/d/images/val/a.JPG'', File ''A''), (''/d/images/val/notes.txt'', File ''n'')]"
  let ?out = "[(''/'', Dir), (''/d'', Dir), (''/d/images'', Dir), (''/d/images/train'', Dir),
           (''/d/images/val'', Dir), (''/d/images/val/b.png'', File ''B''),
           (''/d/images/val/a.JPG'', File ''A''), (''/d/images/val/notes.txt'', File ''n''),
           (''/d/labels'', Dir), (''/d/labels/train'', Dir), (''/d/labels/val'', Dir)]"
  have h1: "isdir ?fs (norm_path ''/d'')" by code_simp
  have h2: "''/d'' = choose_root ''/'' ?fs (norm_path ''/d'') ''yolo''" by code_simp
  have h3: "isdir ?fs (''/d'' @ ''/images'')" by code_simp
  have h4: "ensure_labels ?fs ''/d'' = Inr ?out" by code_simp
  have h5: "''val'' = spec_active_split (\<lambda>s. isdir ?fs (''/d'' @ ''/images/'' @ s))
                (\<lambda>s. list_images ?fs (''/d'' @ ''/images/'' @ s) \<noteq> [])"
    by code_simp
  have i: "(if isdir ?fs (''/d'' @ ''/images/'' @ ''val'')
            then list_images ?fs (''/d'' @ ''/images/'' @ ''val'') else [])
           = [''/d/images/val/a.JPG'', ''/d/images/val/b.png'']"
    by code_simp
  from open_project_selects_active_split [OF h1 h2 h3 h4 h5, of ?st, THEN conjunct1]
  show ?thesis by (simp only: i)
qed

section \<open>Listing the images of a directory\<close>

lemma child_name_SomeD:
  "child_name d k = Some n \<Longrightarrow> k = d @ ''/'' @ n \<and> n \<noteq> [] \<and> CHR ''/'' \<notin> set n"
  by (auto simp: child_name_def prefix_def split: if_splits)

lemma glob_names_filter:
  "map (\<lambda>name. d @ ''/'' @ name)
     (filter (\<lambda>name. hd name \<noteq> CHR ''.'' \<and> CHR ''.'' \<in> set name) (List.map_filter (child_name d) ks))
   = filter (glob_match d) ks"
proof (induction ks)
  case Nil
  show ?case by (simp add: List.map_filter_def)
next
  case (Cons k ks)
  show ?case
  proof (cases "child_name d k")
    case None
    with Cons show ?thesis by (simp add: List.map_filter_def glob_match_def)
  next
    case (Some n)
    from child_name_SomeD [OF Some] have "d @ ''/'' @ n = k" by simp
    with Cons Some show ?thesis by (simp add: List.map_filter_def glob_match_def)
  qed
qed

lemma glob_match_prefix: "glob_match d k \<Longrightarrow> prefix (d @ ''/'') k"
  by (auto simp: glob_match_def child_name_def split: option.splits if_splits)

lemma list_images_as_set:
  assumes "distinct (map fst fs)" "isdir fs d"
  shows "list_images fs d
           = sorted_list_of_set
               {k. map_of fs k \<noteq> None \<and> glob_match d k \<and> list_ex (endswith (py_lower k)) ALLOWED_EXTS}"
proof -
  let ?F = "\<lambda>k. list_ex (endswith (py_lower k)) ALLOWED_EXTS"
  let ?xs = "filter ?F (filter (glob_match d) (map fst fs))"
  have g: "glob_star_dot_star fs d = filter (glob_match d) (map fst fs)"
    using assms(2) glob_names_filter [of d "map fst fs"]
    by (simp add: glob_star_dot_star_def listdir_names_def)
  have d: "distinct ?xs" using assms(1) by simp
  have s: "{k. map_of fs k \<noteq> None \<and> glob_match d k \<and> ?F k} = set ?xs"
    by (auto simp: map_of_eq_None_iff)
  have "sorted_list_of_set (set ?xs) = sort (remdups ?xs)"
    by (rule sorted_list_of_set_sort_remdups)
  also have "remdups ?xs = ?xs" using d by (rule distinct_remdups_id)
  finally have "sorted_list_of_set (set ?xs) = sort ?xs" .
  then show ?thesis unfolding s list_images_def g by simp
qed

lemma list_images_cong:
  assumes "distinct (map fst fs)" "distinct (map fst fs')" "isdir fs d" "isdir fs' d"
    and "\<And>k. prefix (d @ ''/'') k \<Longrightarrow> map_of fs' k = map_of fs k"
  shows "list_images fs' d = list_images fs d"
proof -
  have "{k. map_of fs' k \<noteq> None \<and> glob_match d k \<and> list_ex (endswith (py_lower k)) ALLOWED_EXTS}
      = {k. map_of fs k \<noteq> None \<and> glob_match d k \<and> list_ex (endswith (py_lower k)) ALLOWED_EXTS}"
    using assms(5) glob_match_prefix by auto
  then show ?thesis
    by (simp add: list_images_as_set [OF assms(1,3)] list_images_as_set [OF assms(2,4)])
qed

lemma set_splitext: "set (fst (splitext p)) \<subseteq> set p"
proof -
  have 1: "set (path_head p) \<subseteq> set p"
    by (auto simp: path_head_def dest: set_dropWhileD)
  have 2: "set (basename p) \<subseteq> set p"
    by (auto simp: basename_def dest: set_takeWhileD)
  have t: "set (tl xs) \<subseteq> set xs" for xs :: string
    by (cases xs) auto
  have "set (dropWhile (\<lambda>c. c \<noteq> CHR ''.'') (rev (basename p))) \<subseteq> set (basename p)"
    by (auto dest: set_dropWhileD)
  with t have 3: "set (rev (tl (dropWhile (\<lambda>c. c \<noteq> CHR ''.'') (rev (basename p))))) \<subseteq> set p"
    using 2 by fastforce
  show ?thesis
  proof (cases "CHR ''.'' \<in> set (basename p)
      \<and> rev (tl (dropWhile (\<lambda>c. c \<noteq> CHR ''.'') (rev (basename p))))
          \<noteq> replicate (length (rev (tl (dropWhile (\<lambda>c. c \<noteq> CHR ''.'') (rev (basename p)))))) (CHR ''.'')")
    case True
    then have "fst (splitext p) = path_head p @ rev (tl (dropWhile (\<lambda>c. c \<noteq> CHR ''.'') (rev (basename p))))"
      unfolding splitext_def Let_def by simp
    then show ?thesis using 1 3 by simp
  next
    case False
    then have "fst (splitext p) = p"
      unfolding splitext_def Let_def by auto
    then show ?thesis by simp
  qed
qed

lemma makedirs_noop:
  assumes "isdir fs n"
    and "makedirs_head n = [] \<or> makedirs_tail n = [] \<or> path_exists fs (makedirs_head n)"
  shows "makedirs fs n = Inr fs"
proof -
  from assms(2) have "makedirs fs n = mkdir_exist_ok fs n"
    by (subst makedirs.simps) auto
  also have "\<dots> = Inr fs"
    using assms(1) by (auto simp: mkdir_exist_ok_def mkdir_def isdir_def path_exists_def)
  finally show ?thesis .
qed

lemma wf_fs_makedirs_head:
  assumes "wf_fs fs" "isdir fs n"
  shows "makedirs_head n = [] \<or> makedirs_tail n = [] \<or> isdir fs (makedirs_head n)"
proof -
  have n: "map_of fs n = Some Dir" using assms(2) by (simp add: isdir_def)
  show ?thesis
  proof (cases "basename n = []")
    case False
    then show ?thesis
      using wf_fs_parent [OF assms(1) n] by (auto simp: makedirs_head_def)
  next
    case True
    show ?thesis
    proof (cases "dirname n = []")
      case dn: True
      with True show ?thesis by (simp add: makedirs_head_def)
    next
      case False
      with wf_fs_parent [OF assms(1) n] have "map_of fs (dirname n) = Some Dir"
        by (simp add: isdir_def)
      from wf_fs_parent [OF assms(1) this] True show ?thesis
        by (auto simp: makedirs_head_def)
    qed
  qed
qed

lemma parent_ok:
  "dirname p = [] \<or> isdir fs (dirname p) \<Longrightarrow> parent_error fs p = None"
  by (auto simp: parent_error_def isdir_def)

lemma restore_image_Inr_I:
  assumes "root st \<noteq> []"
    and "isfile fs (root st @ ''/removed/'' @ sp @ ''/images/'' @ filename)"
    and "makedirs fs (root st @ ''/images/'' @ sp) = Inr fs1"
    and "makedirs fs1 (root st @ ''/labels/'' @ sp) = Inr fs2"
    and "move fs2 (root st @ ''/removed/'' @ sp @ ''/images/'' @ filename)
           (root st @ ''/images/'' @ sp @ ''/'' @ filename) = Inr fs3"
    and "move_labels fs3 (root st @ ''/removed/'' @ sp @ ''/labels'') (root st @ ''/labels/'' @ sp)
           (fst (splitext filename)) [''.txt'', ''.json''] = Inr fs4"
  shows "restore_image st fs sp filename
           = Inr (refresh_images st fs4 sp, fs4, images (refresh_images st fs4 sp), filename)"
  using assms by (simp add: restore_image_def Let_def)

lemma remove_image_Inr_I:
  assumes "root st \<noteq> []"
    and "isfile fs (norm_path p)"
    and "makedirs fs (root st @ ''/removed/'' @ sp @ ''/images'') = Inr fs1"
    and "makedirs fs1 (root st @ ''/removed/'' @ sp @ ''/labels'') = Inr fs2"
    and "move fs2 (norm_path p)
           (root st @ ''/removed/'' @ sp @ ''/images/'' @ basename (norm_path p)) = Inr fs3"
    and "move_labels fs3 (root st @ ''/labels/'' @ sp) (root st @ ''/removed/'' @ sp @ ''/labels'')
           (fst (splitext (basename (norm_path p)))) [''.txt'', ''.json''] = Inr fs4"
  shows "remove_image st fs p sp
           = Inr (refresh_images st fs4 sp, fs4, images (refresh_images st fs4 sp), basename (norm_path p))"
  using assms by (simp add: remove_image_def Let_def)

section \<open>Removing and restoring an image\<close>

lemma move_labels_two:
  assumes s1: "map_of fs (sd @ ''/'' @ b @ ''.txt'') = Some (File c1)"
    and d1: "\<not> isdir fs (dd @ ''/'' @ b @ ''.txt'')"
    and d2: "isfile fs (sd @ ''/'' @ b @ ''.json'') \<Longrightarrow> \<not> isdir fs (dd @ ''/'' @ b @ ''.json'')"
    and p1: "dirname (dd @ ''/'' @ b @ ''.txt'') = [] \<or> isdir fs (dirname (dd @ ''/'' @ b @ ''.txt''))"
    and p2: "isfile fs (sd @ ''/'' @ b @ ''.json'') \<Longrightarrow>
               dirname (dd @ ''/'' @ b @ ''.json'') = [] \<or> isdir fs (dirname (dd @ ''/'' @ b @ ''.json''))"
    and ne: "sd @ ''/'' @ b @ ''.txt'' \<noteq> dd @ ''/'' @ b @ ''.json''"
            "sd @ ''/'' @ b @ ''.json'' \<noteq> dd @ ''/'' @ b @ ''.txt''"
    and dist: "distinct (map fst fs)"
  shows "\<exists>fs'. move_labels fs sd dd b [''.txt'', ''.json''] = Inr fs'
           \<and> distinct (map fst fs')
           \<and> (\<forall>q. isdir fs' q = isdir fs q)
           \<and> map_of fs' =
               (if isfile fs (sd @ ''/'' @ b @ ''.json'')
                then (map_of fs)(sd @ ''/'' @ b @ ''.txt'' := None,
                                 dd @ ''/'' @ b @ ''.txt'' \<mapsto> File c1,
                                 sd @ ''/'' @ b @ ''.json'' := None,
                                 dd @ ''/'' @ b @ ''.json'' := map_of fs (sd @ ''/'' @ b @ ''.json''))
                else (map_of fs)(sd @ ''/'' @ b @ ''.txt'' := None,
                                 dd @ ''/'' @ b @ ''.txt'' \<mapsto> File c1))"
proof -
  define a1 where "a1 = sd @ ''/'' @ b @ ''.txt''"
  define a2 where "a2 = sd @ ''/'' @ b @ ''.json''"
  define t1 where "t1 = dd @ ''/'' @ b @ ''.txt''"
  define t2 where "t2 = dd @ ''/'' @ b @ ''.json''"
  define f1 where "f1 = AList.update t1 (File c1) (AList.delete a1 fs)"
  have n12: "a1 \<noteq> a2" "t1 \<noteq> t2" by (simp_all add: a1_def a2_def t1_def t2_def)
  have n: "a1 \<noteq> t2" "a2 \<noteq> t1" using ne by (simp_all add: a1_def a2_def t1_def t2_def)
  have s1': "map_of fs a1 = Some (File c1)" using s1 by (simp add: a1_def)
  have mv1: "move fs a1 t1 = Inr f1"
    unfolding f1_def using d1 p1 s1' by (intro move_onto parent_ok) (simp_all add: t1_def)
  have m1: "map_of f1 = (map_of fs)(a1 := None, t1 \<mapsto> File c1)"
    by (simp add: f1_def update_conv' delete_conv')
  have dir1: "isdir f1 q = isdir fs q" for q by (rule move_isdir [OF mv1])
  have dist1: "distinct (map fst f1)" by (rule move_distinct [OF mv1 dist])
  have f2: "isfile f1 a2 = isfile fs a2"
    using n12 n by (simp add: isfile_iff m1)
  have unfold: "move_labels fs sd dd b [''.txt'', ''.json'']
      = (if isfile f1 a2 then bindE (move f1 a2 t2) (\<lambda>fs'. Inr fs') else Inr f1)"
    using s1' mv1 by (simp add: isfile_iff a1_def a2_def t1_def t2_def)
  show ?thesis
  proof (cases "isfile fs a2")
    case False
    then have "move_labels fs sd dd b [''.txt'', ''.json''] = Inr f1"
      using unfold f2 by simp
    moreover have "map_of f1 = (map_of fs)(a1 := None, t1 \<mapsto> File c1)" by (rule m1)
    ultimately show ?thesis
      using False dist1 dir1 unfolding a1_def a2_def t1_def t2_def by auto
  next
    case True
    then obtain c2 where c2: "map_of fs a2 = Some (File c2)" by (auto simp: isfile_iff)
    define f2' where "f2' = AList.update t2 (File c2) (AList.delete a2 f1)"
    have s2: "map_of f1 a2 = Some (File c2)" using c2 n12 n by (simp add: m1)
    have "\<not> isdir f1 t2" using d2 True dir1 by (simp add: t2_def a2_def)
    moreover have "dirname t2 = [] \<or> isdir f1 (dirname t2)"
      using p2 True dir1 by (simp add: t2_def a2_def)
    ultimately have mv2: "move f1 a2 t2 = Inr f2'"
      unfolding f2'_def using s2 by (intro move_onto parent_ok)
    have "move_labels fs sd dd b [''.txt'', ''.json''] = Inr f2'"
      using unfold f2 True mv2 by simp
    moreover have "distinct (map fst f2')" by (rule move_distinct [OF mv2 dist1])
    moreover have "\<forall>q. isdir f2' q = isdir fs q" using move_isdir [OF mv2] dir1 by simp
    moreover have "map_of f2' = (map_of fs)(a1 := None, t1 \<mapsto> File c1, a2 := None, t2 := map_of fs a2)"
      by (simp add: f2'_def update_conv' delete_conv' m1 c2)
    ultimately show ?thesis
      using True unfolding a1_def a2_def t1_def t2_def by auto
  qed
qed

lemma remove_then_restore:
  assumes wf: "wf_fs fs"
    and r: "root st \<noteq> []"
    and nf: "CHR ''/'' \<notin> set filename"
    and np: "norm_path (root st @ ''/images/'' @ sp @ ''/'' @ filename)
               = root st @ ''/images/'' @ sp @ ''/'' @ filename"
    and fi: "map_of fs (root st @ ''/images/'' @ sp @ ''/'' @ filename) = Some (File c)"
    and ft: "map_of fs (root st @ ''/labels/'' @ sp @ ''/'' @ fst (splitext filename) @ ''.txt'')
               = Some (File ct)"
    and di: "isdir fs (root st @ ''/images/'' @ sp)"
    and dl: "isdir fs (root st @ ''/labels/'' @ sp)"
    and m1: "makedirs fs (root st @ ''/removed/'' @ sp @ ''/images'') = Inr fs1"
    and m2: "makedirs fs1 (root st @ ''/removed/'' @ sp @ ''/labels'') = Inr fs2"
    and e1: "\<not> path_exists fs (root st @ ''/removed/'' @ sp @ ''/images/'' @ filename)"
    and e2: "\<not> path_exists fs (root st @ ''/removed/'' @ sp @ ''/labels/''
                                   @ fst (splitext filename) @ ''.txt'')"
    and e3: "\<not> path_exists fs (root st @ ''/removed/'' @ sp @ ''/labels/''
                                   @ fst (splitext filename) @ ''.json'')"
  shows "\<exists>st1 fsr st2 fss.
           remove_image st fs (root st @ ''/images/'' @ sp @ ''/'' @ filename) sp
             = Inr (st1, fsr, images st1, filename)
         \<and> restore_image st1 fsr sp filename = Inr (st2, fss, images st2, filename)
         \<and> map_of fss = map_of fs2
         \<and> images st2 = list_images fs (root st @ ''/images/'' @ sp)"
proof -
  define d where "d = root st @ ''/images/'' @ sp"
  define ld where "ld = root st @ ''/labels/'' @ sp"
  define rid where "rid = root st @ ''/removed/'' @ sp @ ''/images''"
  define rld where "rld = root st @ ''/removed/'' @ sp @ ''/labels''"
  define b where "b = fst (splitext filename)"
  define img where "img = root st @ ''/images/'' @ sp @ ''/'' @ filename"
  define ri where "ri = root st @ ''/removed/'' @ sp @ ''/images/'' @ filename"
  define lt where "lt = ld @ ''/'' @ b @ ''.txt''"
  define lj where "lj = ld @ ''/'' @ b @ ''.json''"
  define rt where "rt = rld @ ''/'' @ b @ ''.txt''"
  define rj where "rj = rld @ ''/'' @ b @ ''.json''"
  note defs = d_def ld_def rid_def rld_def img_def ri_def lt_def lj_def rt_def rj_def
  note folds = lt_def [symmetric] lj_def [symmetric] rt_def [symmetric] rj_def [symmetric]

  have neq: "img \<noteq> ri" "img \<noteq> lt" "img \<noteq> lj" "img \<noteq> rt" "img \<noteq> rj"
    "ri \<noteq> lt" "ri \<noteq> lj" "ri \<noteq> rt" "ri \<noteq> rj" "lt \<noteq> lj" "lt \<noteq> rt" "lt \<noteq> rj"
    "lj \<noteq> rt" "lj \<noteq> rj" "rt \<noteq> rj"
    by (simp_all add: defs)
  have nb: "CHR ''/'' \<notin> set b" using set_splitext [of filename] nf unfolding b_def by blast
  have bimg: "basename img = filename"
    using basename_join [OF nf, of "root st @ ''/images/'' @ sp"] by (simp add: img_def)
  have nimg: "norm_path img = img" using np by (simp add: img_def)
  have fi': "map_of fs img = Some (File c)" using fi by (simp add: img_def)

  have np_rid: "\<not> prefix img rid" "\<not> prefix ri rid" "\<not> prefix lt rid" "\<not> prefix lj rid"
    "\<not> prefix rt rid" "\<not> prefix rj rid"
    by (simp_all add: defs)
  have np_rld: "\<not> prefix img rld" "\<not> prefix ri rld" "\<not> prefix lt rld" "\<not> prefix lj rld"
    "\<not> prefix rt rld" "\<not> prefix rj rld"
    by (simp_all add: defs)
  have m1': "makedirs fs rid = Inr fs1" and m2': "makedirs fs1 rld = Inr fs2"
    using m1 m2 by (simp_all add: defs)
  have frame2: "map_of fs2 q = map_of fs q" if "\<not> prefix q rid" "\<not> prefix q rld" for q
    using makedirs_frame [OF m1' that(1)] makedirs_frame [OF m2' that(2)] by simp
  have v2: "map_of fs2 img = Some (File c)" "map_of fs2 lt = Some (File ct)"
    "map_of fs2 ri = None" "map_of fs2 rt = None" "map_of fs2 rj = None"
    "map_of fs2 lj = map_of fs lj"
    using fi ft e1 e2 e3 frame2 np_rid np_rld
    by (simp_all add: path_exists_def defs b_def)
  have nd2: "\<not> isdir fs2 img" "\<not> isdir fs2 lt" "\<not> isdir fs2 ri" "\<not> isdir fs2 rt"
    "\<not> isdir fs2 rj"
    using v2 by (simp_all add: isdir_def)
  have ndj: "\<not> isdir fs2 lj" if "isfile fs lj"
    using that v2(6) by (auto simp: isfile_iff isdir_def)
  have up2: "isdir fs2 q" if "isdir fs q" for q
    using that makedirs_preserves [OF m2' makedirs_preserves [OF m1']] by (simp add: isdir_def)
  have dist2: "distinct (map fst fs2)"
    using wf makedirs_distinct [OF m2' makedirs_distinct [OF m1']] by (simp add: wf_fs_def)
  have tail: "makedirs_tail rid \<noteq> ''.''" "makedirs_tail rld \<noteq> ''.''"
  proof -
    have "basename ((root st @ ''/removed/'' @ sp) @ CHR ''/'' # ''images'') = ''images''"
      by (rule basename_join) simp
    then show "makedirs_tail rid \<noteq> ''.''" by (simp add: makedirs_tail_def rid_def)
    have "basename ((root st @ ''/removed/'' @ sp) @ CHR ''/'' # ''labels'') = ''labels''"
      by (rule basename_join) simp
    then show "makedirs_tail rld \<noteq> ''.''" by (simp add: makedirs_tail_def rld_def)
  qed
  have "isdir fs1 rid" by (rule makedirs_isdir [OF m1' tail(1)])
  then have rid2: "isdir fs2 rid" using makedirs_preserves [OF m2'] by (simp add: isdir_def)
  have rld2: "isdir fs2 rld" by (rule makedirs_isdir [OF m2' tail(2)])
  have dn: "dirname ri = rid" "dirname rt = rld" "dirname rj = rld"
  proof -
    show "dirname ri = rid"
      using dirname_join [OF nf, of rid] by (simp add: defs)
    have "CHR ''/'' \<notin> set (b @ ''.txt'')" "CHR ''/'' \<notin> set (b @ ''.json'')" using nb by simp_all
    then show "dirname rt = rld" "dirname rj = rld"
      using dirname_join [of "b @ ''.txt''" rld] dirname_join [of "b @ ''.json''" rld]
      by (simp_all add: defs)
  qed
  have pimg: "dirname img = [] \<or> isdir fs2 (dirname img)"
    using wf_fs_parent [OF wf fi] up2 by (auto simp: img_def)
  have plt: "dirname lt = [] \<or> isdir fs2 (dirname lt)"
    using wf_fs_parent [OF wf ft] up2 by (auto simp: defs b_def)
  have plj: "dirname lj = [] \<or> isdir fs2 (dirname lj)" if "isfile fs lj"
  proof -
    from that obtain cj where "map_of fs lj = Some (File cj)" by (auto simp: isfile_iff)
    from wf_fs_parent [OF wf this] up2 show ?thesis by auto
  qed

  define fs3 where "fs3 = AList.update ri (File c) (AList.delete img fs2)"
  have mv1: "move fs2 img ri = Inr fs3"
    unfolding fs3_def
  proof (intro move_onto parent_ok)
    show "\<not> isdir fs2 ri" by (rule nd2)
    show "dirname ri = [] \<or> isdir fs2 (dirname ri)" using rid2 dn(1) by simp
    show "map_of fs2 img = Some (File c)" by (rule v2(1))
  qed
  have m3: "map_of fs3 = (map_of fs2)(img := None, ri \<mapsto> File c)"
    by (simp add: fs3_def update_conv' delete_conv')
  have dir3: "isdir fs3 q = isdir fs2 q" for q by (rule move_isdir [OF mv1])
  have dist3: "distinct (map fst fs3)" by (rule move_distinct [OF mv1 dist2])
  have f3: "isfile fs3 lj = isfile fs lj"
    using neq v2(6) by (simp add: isfile_iff m3)

  have "\<exists>fs'. move_labels fs3 ld rld b [''.txt'', ''.json''] = Inr fs'
           \<and> distinct (map fst fs')
           \<and> (\<forall>q. isdir fs' q = isdir fs3 q)
           \<and> map_of fs' =
               (if isfile fs3 lj
                then (map_of fs3)(lt := None, rt \<mapsto> File ct, lj := None, rj := map_of fs3 lj)
                else (map_of fs3)(lt := None, rt \<mapsto> File ct))"
    unfolding lt_def lj_def rt_def rj_def
  proof (rule move_labels_two)
    show "map_of fs3 (ld @ ''/'' @ b @ ''.txt'') = Some (File ct)"
      unfolding folds using neq v2(2) by (simp add: m3)
    show "\<not> isdir fs3 (rld @ ''/'' @ b @ ''.txt'')"
      unfolding folds using nd2 by (simp add: dir3)
    show "\<not> isdir fs3 (rld @ ''/'' @ b @ ''.json'')"
      unfolding folds using nd2 by (simp add: dir3)
    show "dirname (rld @ ''/'' @ b @ ''.txt'') = [] \<or> isdir fs3 (dirname (rld @ ''/'' @ b @ ''.txt''))"
      unfolding folds using dn(2) rld2 by (simp add: dir3)
    show "dirname (rld @ ''/'' @ b @ ''.json'') = [] \<or> isdir fs3 (dirname (rld @ ''/'' @ b @ ''.json''))"
      unfolding folds using dn(3) rld2 by (simp add: dir3)
    show "ld @ ''/'' @ b @ ''.txt'' \<noteq> rld @ ''/'' @ b @ ''.json''"
      unfolding folds using neq by simp
    show "ld @ ''/'' @ b @ ''.json'' \<noteq> rld @ ''/'' @ b @ ''.txt''"
      unfolding folds using neq by simp
    show "distinct (map fst fs3)" by (rule dist3)
  qed
  then obtain fs5 where ml1: "move_labels fs3 ld rld b [''.txt'', ''.json''] = Inr fs5"
    and dist5: "distinct (map fst fs5)"
    and dir5: "\<And>q. isdir fs5 q = isdir fs3 q"
    and m5: "map_of fs5 =
               (if isfile fs lj
                then (map_of fs3)(lt := None, rt \<mapsto> File ct, lj := None, rj := map_of fs3 lj)
                else (map_of fs3)(lt := None, rt \<mapsto> File ct))"
    unfolding f3 by blast
  have dirs5: "isdir fs5 q = isdir fs2 q" for q by (simp add: dir5 dir3)

  define st1 where "st1 = refresh_images st fs5 sp"
  have root1: "root st1 = root st" by (simp add: st1_def refresh_images_def)
  have rem: "remove_image st fs (root st @ ''/images/'' @ sp @ ''/'' @ filename) sp
               = Inr (st1, fs5, images st1, filename)"
  proof -
    have "remove_image st fs img sp
            = Inr (refresh_images st fs5 sp, fs5, images (refresh_images st fs5 sp),
                   basename (norm_path img))"
    proof (rule remove_image_Inr_I [where ?fs1.0 = fs1 and ?fs2.0 = fs2 and ?fs3.0 = fs3])
      show "root st \<noteq> []" by (rule r)
      show "isfile fs (norm_path img)" unfolding nimg using fi' by (simp add: isfile_iff)
      show "makedirs fs (root st @ ''/removed/'' @ sp @ ''/images'') = Inr fs1" by (rule m1)
      show "makedirs fs1 (root st @ ''/removed/'' @ sp @ ''/labels'') = Inr fs2" by (rule m2)
      show "move fs2 (norm_path img)
              (root st @ ''/removed/'' @ sp @ ''/images/'' @ basename (norm_path img)) = Inr fs3"
        using mv1 by (simp add: nimg bimg ri_def)
      show "move_labels fs3 (root st @ ''/labels/'' @ sp) (root st @ ''/removed/'' @ sp @ ''/labels'')
              (fst (splitext (basename (norm_path img)))) [''.txt'', ''.json''] = Inr fs5"
        using ml1 by (simp add: nimg bimg ld_def rld_def b_def)
    qed
    then have "remove_image st fs img sp = Inr (st1, fs5, images st1, filename)"
      unfolding nimg bimg st1_def .
    then show ?thesis unfolding img_def .
  qed

  have v5: "map_of fs5 ri = Some (File c)" "map_of fs5 img = None" "map_of fs5 rt = Some (File ct)"
    "map_of fs5 lt = None" "map_of fs5 rj = (if isfile fs lj then map_of fs lj else None)"
    "isfile fs lj \<longrightarrow> map_of fs5 lj = None"
    using neq v2 by (auto simp: m5 m3)

  have noop: "makedirs fs5 n = Inr fs5" if "isdir fs n" for n
  proof (rule makedirs_noop)
    show "isdir fs5 n" using that up2 by (simp add: dirs5)
    from wf_fs_makedirs_head [OF wf that]
    show "makedirs_head n = [] \<or> makedirs_tail n = [] \<or> path_exists fs5 (makedirs_head n)"
      using up2 [of "makedirs_head n"] dirs5 [of "makedirs_head n"]
      by (auto simp: isdir_def path_exists_def)
  qed

  define fs6 where "fs6 = AList.update img (File c) (AList.delete ri fs5)"
  have mv4: "move fs5 ri img = Inr fs6"
    unfolding fs6_def
  proof (intro move_onto parent_ok)
    show "\<not> isdir fs5 img" using nd2 by (simp add: dirs5)
    show "dirname img = [] \<or> isdir fs5 (dirname img)" using pimg by (simp add: dirs5)
    show "map_of fs5 ri = Some (File c)" by (rule v5(1))
  qed
  have m6: "map_of fs6 = (map_of fs5)(ri := None, img \<mapsto> File c)"
    by (simp add: fs6_def update_conv' delete_conv')
  have dir6: "isdir fs6 q = isdir fs2 q" for q using move_isdir [OF mv4] by (simp add: dirs5)
  have dist6: "distinct (map fst fs6)" by (rule move_distinct [OF mv4 dist5])
  have "map_of fs6 rj = (if isfile fs lj then map_of fs lj else None)"
    using neq v5(5) by (simp add: m6)
  then have f6: "isfile fs6 rj = isfile fs lj"
    by (cases "isfile fs lj") (simp_all add: isfile_def)

  have "\<exists>fs'. move_labels fs6 rld ld b [''.txt'', ''.json''] = Inr fs'
           \<and> distinct (map fst fs')
           \<and> (\<forall>q. isdir fs' q = isdir fs6 q)
           \<and> map_of fs' =
               (if isfile fs6 rj
                then (map_of fs6)(rt := None, lt \<mapsto> File ct, rj := None, lj := map_of fs6 rj)
                else (map_of fs6)(rt := None, lt \<mapsto> File ct))"
    unfolding lt_def lj_def rt_def rj_def
  proof (rule move_labels_two)
    show "map_of fs6 (rld @ ''/'' @ b @ ''.txt'') = Some (File ct)"
      unfolding folds using neq v5(3) by (simp add: m6)
    show "\<not> isdir fs6 (ld @ ''/'' @ b @ ''.txt'')"
      unfolding folds using nd2 by (simp add: dir6)
    show "\<not> isdir fs6 (ld @ ''/'' @ b @ ''.json'')" if "isfile fs6 (rld @ ''/'' @ b @ ''.json'')"
      using that unfolding folds using ndj by (simp add: f6 dir6)
    show "dirname (ld @ ''/'' @ b @ ''.txt'') = [] \<or> isdir fs6 (dirname (ld @ ''/'' @ b @ ''.txt''))"
      unfolding folds using plt by (simp add: dir6)
    show "dirname (ld @ ''/'' @ b @ ''.json'') = [] \<or> isdir fs6 (dirname (ld @ ''/'' @ b @ ''.json''))"
      if "isfile fs6 (rld @ ''/'' @ b @ ''.json'')"
      using that unfolding folds using plj by (simp add: f6 dir6)
    show "rld @ ''/'' @ b @ ''.txt'' \<noteq> ld @ ''/'' @ b @ ''.json''"
      unfolding folds using neq by simp
    show "rld @ ''/'' @ b @ ''.json'' \<noteq> ld @ ''/'' @ b @ ''.txt''"
      unfolding folds using neq by simp
    show "distinct (map fst fs6)" by (rule dist6)
  qed
  then obtain fs8 where ml2: "move_labels fs6 rld ld b [''.txt'', ''.json''] = Inr fs8"
    and dist8: "distinct (map fst fs8)"
    and dir8: "\<And>q. isdir fs8 q = isdir fs6 q"
    and m8: "map_of fs8 =
               (if isfile fs lj
                then (map_of fs6)(rt := None, lt \<mapsto> File ct, rj := None, lj := map_of fs6 rj)
                else (map_of fs6)(rt := None, lt \<mapsto> File ct))"
    unfolding f6 by blast

  define st2 where "st2 = refresh_images st1 fs8 sp"
  have res: "restore_image st1 fs5 sp filename = Inr (st2, fs8, images st2, filename)"
    unfolding st2_def
  proof (rule restore_image_Inr_I [where ?fs1.0 = fs5 and ?fs2.0 = fs5 and ?fs3.0 = fs6])
    show "root st1 \<noteq> []" using r by (simp add: root1)
    show "isfile fs5 (root st1 @ ''/removed/'' @ sp @ ''/images/'' @ filename)"
      using v5(1) by (simp add: root1 isfile_iff ri_def)
    show "makedirs fs5 (root st1 @ ''/images/'' @ sp) = Inr fs5"
      using noop [OF di] by (simp add: root1)
    show "makedirs fs5 (root st1 @ ''/labels/'' @ sp) = Inr fs5"
      using noop [OF dl] by (simp add: root1)
    show "move fs5 (root st1 @ ''/removed/'' @ sp @ ''/images/'' @ filename)
            (root st1 @ ''/images/'' @ sp @ ''/'' @ filename) = Inr fs6"
      using mv4 by (simp add: root1 ri_def img_def)
    show "move_labels fs6 (root st1 @ ''/removed/'' @ sp @ ''/labels'') (root st1 @ ''/labels/'' @ sp)
            (fst (splitext filename)) [''.txt'', ''.json''] = Inr fs8"
      using ml2 by (simp add: root1 ld_def rld_def b_def)
  qed

  have restored: "map_of fs8 = map_of fs2"
  proof (rule ext)
    fix q
    show "map_of fs8 q = map_of fs2 q"
    proof (cases "isfile fs lj")
      case True
      then obtain cj where cj: "map_of fs lj = Some (File cj)" by (auto simp: isfile_iff)
      with True neq v2 show ?thesis by (simp add: m8 m6 m5 m3)
    next
      case False
      with neq v2 show ?thesis by (simp add: m8 m6 m5 m3)
    qed
  qed

  have d8: "isdir fs8 d" using up2 [OF di] by (simp add: dir8 dir6 d_def)
  have "list_images fs8 d = list_images fs d"
  proof (rule list_images_cong)
    show "distinct (map fst fs)" using wf by (simp add: wf_fs_def)
    show "distinct (map fst fs8)" by (rule dist8)
    show "isdir fs d" using di by (simp add: d_def)
    show "isdir fs8 d" by (rule d8)
    fix k
    assume k: "prefix (d @ ''/'') k"
    have "\<not> prefix k rid"
    proof
      assume "prefix k rid"
      with k have "prefix (d @ ''/'') rid" by (rule prefix_order.trans)
      then show False by (simp add: defs)
    qed
    moreover have "\<not> prefix k rld"
    proof
      assume "prefix k rld"
      with k have "prefix (d @ ''/'') rld" by (rule prefix_order.trans)
      then show False by (simp add: defs)
    qed
    ultimately show "map_of fs8 k = map_of fs k" using frame2 by (simp add: restored)
  qed
  then have "images st2 = list_images fs (root st @ ''/images/'' @ sp)"
    using d8 by (simp add: st2_def refresh_images_def root1 d_def)
  with rem res restored show ?thesis by blast
qed

text \<open>
  Claim C3, as amended. On a well-formed file system with a project loaded, take an
  image \<^verbatim>\<open>images/<s>/<filename>\<close> with its label \<^verbatim>\<open>labels/<s>/<base>.txt\<close>, where the
  removed area of the split can be created and holds nothing under the names of the
  image and of its two labels. If the cached image list is the listing of that split,
  then \<open>remove_image\<close> followed by \<open>restore_image\<close> succeed, the image file and the label
  file are back at their paths with their contents, every path holds what it held once
  the removed area existed, and the cached list and the list returned are the list from
  before the removal.
\<close>

theorem remove_then_restore_round_trip:
  assumes "wf_fs fs"
    and "root st \<noteq> []"
    and "CHR ''/'' \<notin> set filename"
    and "norm_path (root st @ ''/images/'' @ sp @ ''/'' @ filename)
           = root st @ ''/images/'' @ sp @ ''/'' @ filename"
    and "map_of fs (root st @ ''/images/'' @ sp @ ''/'' @ filename) = Some (File c)"
    and "map_of fs (root st @ ''/labels/'' @ sp @ ''/'' @ fst (splitext filename) @ ''.txt'')
           = Some (File ct)"
    and "isdir fs (root st @ ''/images/'' @ sp)"
    and "isdir fs (root st @ ''/labels/'' @ sp)"
    and "makedirs fs (root st @ ''/removed/'' @ sp @ ''/images'') = Inr fs1"
    and "makedirs fs1 (root st @ ''/removed/'' @ sp @ ''/labels'') = Inr fs2"
    and "\<not> path_exists fs (root st @ ''/removed/'' @ sp @ ''/images/'' @ filename)"
    and "\<not> path_exists fs (root st @ ''/removed/'' @ sp @ ''/labels/''
                               @ fst (splitext filename) @ ''.txt'')"
    and "\<not> path_exists fs (root st @ ''/removed/'' @ sp @ ''/labels/''
                               @ fst (splitext filename) @ ''.json'')"
    and "images st = list_images fs (root st @ ''/images/'' @ sp)"
  shows "\<exists>st1 fsr st2 fss.
           remove_image st fs (root st @ ''/images/'' @ sp @ ''/'' @ filename) sp
             = Inr (st1, fsr, images st1, filename)
         \<and> restore_image st1 fsr sp filename = Inr (st2, fss, images st, filename)
         \<and> images st2 = images st
         \<and> map_of fss (root st @ ''/images/'' @ sp @ ''/'' @ filename) = Some (File c)
         \<and> map_of fss (root st @ ''/labels/'' @ sp @ ''/'' @ fst (splitext filename) @ ''.txt'')
             = Some (File ct)
         \<and> map_of fss = map_of fs2"
proof -
  from remove_then_restore [OF assms(1-13)] obtain st1 fsr st2 fss where
    a: "remove_image st fs (root st @ ''/images/'' @ sp @ ''/'' @ filename) sp
          = Inr (st1, fsr, images st1, filename)"
    and b: "restore_image st1 fsr sp filename = Inr (st2, fss, images st2, filename)"
    and m: "map_of fss = map_of fs2"
    and i: "images st2 = list_images fs (root st @ ''/images/'' @ sp)"
    by blast
  have p: "map_of fs2 q = Some v" if "map_of fs q = Some v" for q v
    using makedirs_preserves [OF assms(10) makedirs_preserves [OF assms(9) that]] .
  from i assms(14) have i': "images st2 = images st" by simp
  from a b m i' p [OF assms(5)] p [OF assms(6)] show ?thesis
    by (metis (no_types))
qed

theorem remove_then_restore_round_trip_witness:
  "\<exists>st1 fsr st2 fss.
     remove_image \<lparr>root = ''/d'', mode = ''yolo'', split = ''train'',
                    images = [''/d/images/train/a.jpg'', ''/d/images/train/b.jpg'']\<rparr>
       [(''/'', Dir), (''/d'', Dir), (''/d/images'', Dir), (''/d/images/train'', Dir),
        (''/d/images/train/a.jpg'', File ''A''), (''/d/images/train/b.jpg'', File ''B''),
        (''/d/labels'', Dir), (''/d/labels/train'', Dir),
        (''/d/labels/train/a.txt'', File ''0 0.500000 0.500000 0.200000 0.400000\<newline>'')]
       ''/d/images/train/a.jpg'' ''train''
       = Inr (st1, fsr, images st1, ''a.jpg'')
   \<and> restore_image st1 fsr ''train'' ''a.jpg''
       = Inr (st2, fss, [''/d/images/train/a.jpg'', ''/d/images/train/b.jpg''], ''a.jpg'')
   \<and> images st2 = [''/d/images/train/a.jpg'', ''/d/images/train/b.jpg'']
   \<and> map_of fss ''/d/images/train/a.jpg'' = Some (File ''A'')
   \<and> map_of fss ''/d/labels/train/a.txt''
       = Some (File ''0 0.500000 0.500000 0.200000 0.400000\<newline>'')"
proof -
  let ?st = "\<lparr>root = ''/d'', mode = ''yolo'', split = ''train'',
                    images = [''/d/images/train/a.jpg'', ''/d/images/train/b.jpg'']\<rparr>"
  let ?fs = "[(''/'', Dir), (''/d'', Dir), (''/d/images'', Dir), (''/d/images/train'', Dir),
        (''/d/images/train/a.jpg'', File ''A''), (''/d/images/train/b.jpg'', File ''B''),
        (''/d/labels'', Dir), (''/d/labels/train'', Dir),
        (''/d/labels/train/a.txt'', File ''0 0.500000 0.500000 0.200000 0.400000\<newline>'')]"
  let ?one = "?fs @ [(''/d/removed'', Dir), (''/d/removed/train'', Dir),
                     (''/d/removed/train/images'', Dir)]"
  let ?two = "?one @ [(''/d/removed/train/labels'', Dir)]"
  have h1: "wf_fs ?fs" by code_simp
  have h2: "root ?st \<noteq> []" by simp
  have h3: "CHR ''/'' \<notin> set ''a.jpg''" by simp
  have h4: "norm_path (root ?st @ ''/images/'' @ ''train'' @ ''/'' @ ''a.jpg'')
              = root ?st @ ''/images/'' @ ''train'' @ ''/'' @ ''a.jpg''"
    by code_simp
  have h5: "map_of ?fs (root ?st @ ''/images/'' @ ''train'' @ ''/'' @ ''a.jpg'') = Some (File ''A'')"
    by code_simp
  have h6: "map_of ?fs (root ?st @ ''/labels/'' @ ''train'' @ ''/'' @ fst (splitext ''a.jpg'') @ ''.txt'')
              = Some (File ''0 0.500000 0.500000 0.200000 0.400000\<newline>'')"
    by code_simp
  have h7: "isdir ?fs (root ?st @ ''/images/'' @ ''train'')" by code_simp
  have h8: "isdir ?fs (root ?st @ ''/labels/'' @ ''train'')" by code_simp
  have h9: "makedirs ?fs (root ?st @ ''/removed/'' @ ''train'' @ ''/images'') = Inr ?one"
    by code_simp
  have h10: "makedirs ?one (root ?st @ ''/removed/'' @ ''train'' @ ''/labels'') = Inr ?two"
    by code_simp
  have h11: "\<not> path_exists ?fs (root ?st @ ''/removed/'' @ ''train'' @ ''/images/'' @ ''a.jpg'')"
    by code_simp
  have h12: "\<not> path_exists ?fs (root ?st @ ''/removed/'' @ ''train'' @ ''/labels/''
                               @ fst (splitext ''a.jpg'') @ ''.txt'')"
    by code_simp
  have h13: "\<not> path_exists ?fs (root ?st @ ''/removed/'' @ ''train'' @ ''/labels/''
                               @ fst (splitext ''a.jpg'') @ ''.json'')"
    by code_simp
  have h14: "images ?st = list_images ?fs (root ?st @ ''/images/'' @ ''train'')" by code_simp
  have e: "root ?st @ ''/images/'' @ ''train'' @ ''/'' @ ''a.jpg'' = ''/d/images/train/a.jpg''"
    "root ?st @ ''/labels/'' @ ''train'' @ ''/'' @ fst (splitext ''a.jpg'') @ ''.txt''
       = ''/d/labels/train/a.txt''"
    "images ?st = [''/d/images/train/a.jpg'', ''/d/images/train/b.jpg'']"
    by code_simp+
  from remove_then_restore_round_trip [OF h1 h2 h3 h4 h5 h6 h7 h8 h9 h10 h11 h12 h13 h14]
  show ?thesis unfolding e by blast
qed

text \<open>
  The claim as stated fails when the split of the request is not the split whose
  listing is cached: a project opens on \<^verbatim>\<open>train\<close>, an image of \<^verbatim>\<open>val\<close> is removed and
  restored, and the cached list has become the listing of \<^verbatim>\<open>val\<close>.
\<close>

theorem remove_then_restore_other_split_changes_list:
  "open_project ''/'' \<lparr>root = [], mode = ''images'', split = ''train'', images = []\<rparr>
     [(''/'', Dir), (''/d'', Dir), (''/d/images'', Dir), (''/d/images/train'', Dir),
      (''/d/images/train/t.jpg'', File ''T''), (''/d/images/val'', Dir),
      (''/d/images/val/v.jpg'', File ''V''), (''/d/labels'', Dir), (''/d/labels/train'', Dir),
      (''/d/labels/val'', Dir),
      (''/d/labels/val/v.txt'', File ''0 0.500000 0.500000 0.200000 0.400000\<newline>'')]
     ''/d'' ''yolo''
   = Inr (\<lparr>root = ''/d'', mode = ''yolo'', split = ''train'', images = [''/d/images/train/t.jpg'']\<rparr>,
          [(''/'', Dir), (''/d'', Dir), (''/d/images'', Dir), (''/d/images/train'', Dir),
           (''/d/images/train/t.jpg'', File ''T''), (''/d/images/val'', Dir),
           (''/d/images/val/v.jpg'', File ''V''), (''/d/labels'', Dir), (''/d/labels/train'', Dir),
           (''/d/labels/val'', Dir),
           (''/d/labels/val/v.txt'', File ''0 0.500000 0.500000 0.200000 0.400000\<newline>'')])
   \<and> remove_image
       \<lparr>root = ''/d'', mode = ''yolo'', split = ''train'', images = [''/d/images/train/t.jpg'']\<rparr>
       [(''/'', Dir), (''/d'', Dir), (''/d/images'', Dir), (''/d/images/train'', Dir),
        (''/d/images/train/t.jpg'', File ''T''), (''/d/images/val'', Dir),
        (''/d/images/val/v.jpg'', File ''V''), (''/d/labels'', Dir), (''/d/labels/train'', Dir),
        (''/d/labels/val'', Dir),
        (''/d/labels/val/v.txt'', File ''0 0.500000 0.500000 0.200000 0.400000\<newline>'')]
       ''/d/images/val/v.jpg'' ''val''
     = Inr (\<lparr>root = ''/d'', mode = ''yolo'', split = ''train'', images = []\<rparr>,
            [(''/'', Dir), (''/d'', Dir), (''/d/images'', Dir), (''/d/images/train'', Dir),
             (''/d/images/train/t.jpg'', File ''T''), (''/d/images/val'', Dir), (''/d/labels'', Dir),
             (''/d/labels/train'', Dir), (''/d/labels/val'', Dir), (''/d/removed'', Dir),
             (''/d/removed/val'', Dir), (''/d/removed/val/images'', Dir),
             (''/d/removed/val/labels'', Dir), (''/d/removed/val/images/v.jpg'', File ''V''),
             (''/d/removed/val/labels/v.txt'', File ''0 0.500000 0.500000 0.200000 0.400000\<newline>'')],
            [], ''v.jpg'')
   \<and> restore_image \<lparr>root = ''/d'', mode = ''yolo'', split = ''train'', images = []\<rparr>
       [(''/'', Dir), (''/d'', Dir), (''/d/images'', Dir), (''/d/images/train'', Dir),
        (''/d/images/train/t.jpg'', File ''T''), (''/d/images/val'', Dir), (''/d/labels'', Dir),
        (''/d/labels/train'', Dir), (''/d/labels/val'', Dir), (''/d/removed'', Dir),
        (''/d/removed/val'', Dir), (''/d/removed/val/images'', Dir),
        (''/d/removed/val/labels'', Dir), (''/d/removed/val/images/v.jpg'', File ''V''),
        (''/d/removed/val/labels/v.txt'', File ''0 0.500000 0.500000 0.200000 0.400000\<newline>'')]
       ''val'' ''v.jpg''
     = Inr (\<lparr>root = ''/d'', mode = ''yolo'', split = ''train'', images = [''/d/images/val/v.jpg'']\<rparr>,
            [(''/'', Dir), (''/d'', Dir), (''/d/images'', Dir), (''/d/images/train'', Dir),
             (''/d/images/train/t.jpg'', File ''T''), (''/d/images/val'', Dir), (''/d/labels'', Dir),
             (''/d/labels/train'', Dir), (''/d/labels/val'', Dir), (''/d/removed'', Dir),
             (''/d/removed/val'', Dir), (''/d/removed/val/images'', Dir),
             (''/d/removed/val/labels'', Dir), (''/d/images/val/v.jpg'', File ''V''),
             (''/d/labels/val/v.txt'', File ''0 0.500000 0.500000 0.200000 0.400000\<newline>'')],
            [''/d/images/val/v.jpg''], ''v.jpg'')"
  by code_simp

end
